theory Spec2Isabelle
  imports Complex_Main
begin

section \<open>Images, score maps and the template store\<close>

text \<open>
  A numpy array of rank two: \<open>shape0\<close> rows, \<open>shape1\<close> columns, and the entry at row
  \<open>y\<close>, column \<open>x\<close>. A decoded image is used by the program only through
  \<open>cv2.cvtColor(_, COLOR_BGR2GRAY)\<close>, so an image is identified with its luminance plane
  (entries 0..255). A score map is what \<open>cv2.matchTemplate(_, _, TM_CCOEFF_NORMED)\<close>
  returns; its entries are finite floating-point numbers, modelled as rationals, of which
  the program only uses the order.
\<close>

record 'a ndarray =
  shape0 :: nat
  shape1 :: nat
  cell :: "nat \<Rightarrow> nat \<Rightarrow> 'a"

type_synonym gray = "nat ndarray"
type_synonym scores = "rat ndarray"

text \<open>The content of an image file as \<open>cv2.imread\<close> sees it: \<open>None\<close> when the bytes do
  not decode (\<open>imread\<close> returns \<open>None\<close>).\<close>

type_synonym png = "gray option"

datatype py_exc = RuntimeError | TimeoutExpired | KeyboardInterrupt | IndexError | FileNotFoundError

text \<open>\<open>except Exception\<close> catches every exception of the model but \<open>KeyboardInterrupt\<close>.\<close>

definition is_Exception :: "py_exc \<Rightarrow> bool" where
  "is_Exception e = (e \<noteq> KeyboardInterrupt)"

text \<open>The result of one \<open>adb exec-out screencap -p\<close> run by \<open>subprocess.run\<close>.\<close>

datatype adb_result = Exited int png | TimedOut | Interrupted

text \<open>The configuration file, as far as the automation reads it. Every key the loop
  reads with \<open>[...]\<close> is taken to be present (a missing one would raise \<open>KeyError\<close>
  inside the cycle); \<open>manual_choose\<close> and the two filter choices are read with \<open>.get\<close>
  and hold their defaults when absent.\<close>

record config =
  manual_choose :: bool
  filter_rarity :: string
  filter_speciality :: string
  attempts_next :: nat
  wait_career :: rat
  wait_next :: rat
  wait_start_career :: rat
  wait_skip :: rat
  wait_confirm :: rat
  wait_loop :: rat
  tap_after_skip :: "int \<times> int"

text \<open>
  Everything outside the program: the template directories (\<open>templates f = None\<close> when no
  file \<open>f\<close> exists), the matcher of OpenCV (\<open>None\<close> when it raises \<open>cv2.error\<close>), the
  device answering the \<open>k\<close>-th screen capture, the clock read at the \<open>k\<close>-th capture, and
  what the constructor \<open>UmaAutomation()\<close> raised at startup, if anything.
\<close>

record env =
  template_path :: string
  templates :: "string \<Rightarrow> png option"
  matchTemplate :: "gray \<Rightarrow> gray \<Rightarrow> scores option"
  screencap :: "nat \<Rightarrow> adb_result"
  clock :: "nat \<Rightarrow> nat"
  startup :: "py_exc option"
  cfg :: config

datatype event = Capture | Tap int int | Sleep rat | LogInfo string | LogError string

text \<open>
  The state the program changes: the number of captures made so far, the scratch directory
  (a screenshot file \<open>screenshot_<t>.png\<close> is identified by its timestamp \<open>t\<close>), and the
  trace of what the program did to the device and the clock.
\<close>

record state =
  ncap :: nat
  fs :: "nat \<Rightarrow> png option"
  trace :: "event list"

definition emit :: "event \<Rightarrow> state \<Rightarrow> state" where
  "emit ev s = s\<lparr>trace := trace s @ [ev]\<rparr>"

text \<open>\<open>os.path.join\<close> of two components (POSIX).\<close>

definition path_join :: "string \<Rightarrow> string \<Rightarrow> string" where
  "path_join d n =
     (if n \<noteq> [] \<and> hd n = CHR ''/'' then n
      else if d = [] \<or> last d = CHR ''/'' then d @ n
      else d @ ''/'' @ n)"

definition imread_template :: "env \<Rightarrow> string \<Rightarrow> png" where
  "imread_template E f = (case templates E f of None \<Rightarrow> None | Some b \<Rightarrow> b)"

definition imread_screenshot :: "state \<Rightarrow> nat \<Rightarrow> png" where
  "imread_screenshot s p = (case fs s p of None \<Rightarrow> None | Some b \<Rightarrow> b)"

section \<open>Template matching\<close>

text \<open>The positions (row, column) of an array in scan order.\<close>

definition positions :: "'a ndarray \<Rightarrow> (nat \<times> nat) list" where
  "positions a = concat (map (\<lambda>y. map (\<lambda>x. (y, x)) [0..<shape1 a]) [0..<shape0 a])"

text \<open>
  \<open>cv2.minMaxLoc\<close>, of which the program reads \<open>max_val\<close> and \<open>max_loc\<close> only: the largest
  entry and the first position in scan order that holds it, as a point \<open>(x, y)\<close>. On an
  empty array OpenCV raises (\<open>None\<close>).
\<close>

definition scan_max :: "scores \<Rightarrow> nat \<times> nat \<Rightarrow> rat \<times> nat \<times> nat \<Rightarrow> rat \<times> nat \<times> nat" where
  "scan_max a p best = (if fst best < cell a (fst p) (snd p) then (cell a (fst p) (snd p), p) else best)"

definition minMaxLoc :: "scores \<Rightarrow> (rat \<times> int \<times> int) option" where
  "minMaxLoc a =
     (case positions a of
        [] \<Rightarrow> None
      | p # ps \<Rightarrow>
          (let best = fold (scan_max a) ps (cell a (fst p) (snd p), p)
           in Some (fst best, int (snd (snd best)), int (fst (snd best)))))"

text \<open>\<open>find_template\<close>: the centre of the best match when its score reaches the threshold.\<close>

definition find_template :: "env \<Rightarrow> state \<Rightarrow> string \<Rightarrow> nat \<Rightarrow> rat \<Rightarrow> (int \<times> int) option" where
  "find_template E s template_name screenshot_path threshold =
     (let template_file = path_join (template_path E) template_name in
      if templates E template_file = None then None
      else
        (case imread_screenshot s screenshot_path of
           None \<Rightarrow> None
         | Some screenshot_gray \<Rightarrow>
             (case imread_template E template_file of
                None \<Rightarrow> None
              | Some template_gray \<Rightarrow>
                  (case matchTemplate E screenshot_gray template_gray of
                     None \<Rightarrow> None
                   | Some result \<Rightarrow>
                       (case minMaxLoc result of
                          None \<Rightarrow> None
                        | Some (max_val, max_loc) \<Rightarrow>
                            if threshold \<le> max_val then
                              (let h = shape0 template_gray; w = shape1 template_gray;
                                   center_x = fst max_loc + int (w div 2);
                                   center_y = snd max_loc + int (h div 2)
                               in Some (center_x, center_y))
                            else None)))))"

text \<open>
  \<open>np.where(result >= threshold)\<close> followed by \<open>list(zip(*locations[::-1]))\<close>: the positions
  whose score reaches the threshold, in scan order, as points \<open>(x, y)\<close>.
\<close>

definition np_where_ge :: "scores \<Rightarrow> rat \<Rightarrow> (int \<times> int) list" where
  "np_where_ge result threshold =
     map (\<lambda>p. (int (snd p), int (fst p)))
       (filter (\<lambda>p. threshold \<le> cell result (fst p) (snd p)) (positions result))"

text \<open>\<open>a[y, x]\<close> on a numpy array: a negative index counts from the end, an index out of
  range raises \<open>IndexError\<close>.\<close>

definition getitem :: "'a ndarray \<Rightarrow> int \<Rightarrow> int \<Rightarrow> py_exc + 'a" where
  "getitem a y x =
     (let r = int (shape0 a); c = int (shape1 a);
          j = (if y < 0 then y + r else y); i = (if x < 0 then x + c else x)
      in if 0 \<le> j \<and> j < r \<and> 0 \<le> i \<and> i < c then Inr (cell a (nat j) (nat i))
         else Inl IndexError)"

text \<open>
  \<open>np.sqrt(dx**2 + dy**2) < 50\<close> on integer coordinates: the square root is monotone and
  \<open>sqrt 2500 = 50\<close> exactly, so the comparison holds exactly when \<open>dx**2 + dy**2 < 2500\<close>.
\<close>

definition too_close :: "int \<times> int \<Rightarrow> int \<times> int \<Rightarrow> bool" where
  "too_close c existing_coord = ((fst c - fst existing_coord)\<^sup>2 + (snd c - snd existing_coord)\<^sup>2 < 2500)"

text \<open>The loop over the matches of \<open>find_use_buttons_with_brightness_filter\<close>, with
  \<open>unique_coords\<close> as the accumulator.\<close>

fun use_loop :: "gray \<Rightarrow> nat \<Rightarrow> nat \<Rightarrow> int \<Rightarrow> (int \<times> int) list \<Rightarrow> (int \<times> int) list
    \<Rightarrow> py_exc + (int \<times> int) list" where
  "use_loop g h w bt [] unique_coords = Inr unique_coords"
| "use_loop g h w bt (m # matches) unique_coords =
     (let center_x = fst m + int (w div 2); center_y = snd m + int (h div 2) in
      if center_y < int (shape0 g) \<and> center_x < int (shape1 g) then
        (case getitem g center_y center_x of
           Inl e \<Rightarrow> Inl e
         | Inr brightness \<Rightarrow>
             if bt < int brightness then
               (if list_ex (too_close (center_x, center_y)) unique_coords
                then use_loop g h w bt matches unique_coords
                else use_loop g h w bt matches (unique_coords @ [(center_x, center_y)]))
             else use_loop g h w bt matches unique_coords)
      else use_loop g h w bt matches unique_coords)"

definition find_use_buttons_with_brightness_filter :: "env \<Rightarrow> state \<Rightarrow> nat \<Rightarrow> int \<Rightarrow> (int \<times> int) list" where
  "find_use_buttons_with_brightness_filter E s screenshot_path brightness_threshold =
     (let template_file = path_join (template_path E) ''use.png'' in
      if templates E template_file = None then []
      else
        (case imread_screenshot s screenshot_path of
           None \<Rightarrow> []
         | Some screenshot_gray \<Rightarrow>
             (case imread_template E template_file of
                None \<Rightarrow> []
              | Some template_gray \<Rightarrow>
                  (case matchTemplate E screenshot_gray template_gray of
                     None \<Rightarrow> []
                   | Some result \<Rightarrow>
                       (let matches = np_where_ge result (4 / 5);
                            h = shape0 template_gray; w = shape1 template_gray
                        in case use_loop screenshot_gray h w brightness_threshold matches [] of
                             Inl e \<Rightarrow> []
                           | Inr unique_coords \<Rightarrow> unique_coords)))))"

section \<open>Device primitives\<close>

text \<open>
  \<open>take_screenshot\<close>: the file name is built from the clock before the device is asked; the
  file is written only when the command exits with status 0, a non-zero status raises
  \<open>RuntimeError\<close>, and a timeout is raised again.
\<close>

definition take_screenshot :: "env \<Rightarrow> state \<Rightarrow> (py_exc + nat) \<times> state" where
  "take_screenshot E s =
     (let timestamp = clock E (ncap s);
          s1 = emit Capture (s\<lparr>ncap := Suc (ncap s)\<rparr>)
      in case screencap E (ncap s) of
           Exited returncode out \<Rightarrow>
             if returncode = 0 then (Inr timestamp, s1\<lparr>fs := (fs s1)(timestamp \<mapsto> out)\<rparr>)
             else (Inl RuntimeError, s1)
         | TimedOut \<Rightarrow> (Inl TimeoutExpired, s1)
         | Interrupted \<Rightarrow> (Inl KeyboardInterrupt, s1))"

text \<open>\<open>tap_coordinate\<close> sends the tap; a non-zero exit status and a timeout of the command
  are logged and nothing is raised.\<close>

definition tap_coordinate :: "int \<Rightarrow> int \<Rightarrow> state \<Rightarrow> state" where
  "tap_coordinate x y s = emit (Tap x y) s"

definition wait :: "rat \<Rightarrow> state \<Rightarrow> state" where
  "wait seconds s = emit (Sleep seconds) s"

definition time_sleep :: "rat \<Rightarrow> state \<Rightarrow> state" where
  "time_sleep seconds s = emit (Sleep seconds) s"

text \<open>The clean-up of every \<open>finally\<close>: \<open>if os.path.exists(p): os.remove(p)\<close>.\<close>

definition remove_if_exists :: "nat \<Rightarrow> state \<Rightarrow> state" where
  "remove_if_exists p s = s\<lparr>fs := (fs s)(p := None)\<rparr>"

section \<open>Locate and act\<close>

text \<open>\<open>find_and_tap\<close>: the loop over \<open>range(max_attempts)\<close>, then the function.\<close>

fun find_and_tap_loop :: "env \<Rightarrow> string \<Rightarrow> nat \<Rightarrow> rat \<Rightarrow> nat list \<Rightarrow> state \<Rightarrow> (py_exc + bool) \<times> state" where
  "find_and_tap_loop E template_name max_attempts wait_after [] s = (Inr False, s)"
| "find_and_tap_loop E template_name max_attempts wait_after (attempt # rest) s =
     (case take_screenshot E s of
        (Inl e, s1) \<Rightarrow> (Inl e, s1)
      | (Inr screenshot_path, s1) \<Rightarrow>
          (case find_template E s1 template_name screenshot_path (4 / 5) of
             Some coords \<Rightarrow>
               (let s2 = tap_coordinate (fst coords) (snd coords) s1;
                    s3 = (if 0 < wait_after then wait wait_after s2 else s2)
                in (Inr True, remove_if_exists screenshot_path s3))
           | None \<Rightarrow>
               (let s2 = (if int attempt < int max_attempts - 1 then wait 1 s1 else s1)
                in find_and_tap_loop E template_name max_attempts wait_after rest
                     (remove_if_exists screenshot_path s2))))"

definition find_and_tap :: "env \<Rightarrow> string \<Rightarrow> nat \<Rightarrow> rat \<Rightarrow> state \<Rightarrow> (py_exc + bool) \<times> state" where
  "find_and_tap E template_name max_attempts wait_after s =
     find_and_tap_loop E template_name max_attempts wait_after [0..<max_attempts] s"

text \<open>One pass of the loop over \<open>extra_dirs\<close> in \<open>find_template_multi\<close>: \<open>Some\<close> is the
  \<open>return\<close>, \<open>None\<close> goes on to the next directory.\<close>

definition search_directory :: "env \<Rightarrow> state \<Rightarrow> string \<Rightarrow> string \<Rightarrow> nat \<Rightarrow> rat \<Rightarrow> (int \<times> int) option" where
  "search_directory E s directory template_name screenshot_path threshold =
     (let template_file = path_join directory template_name in
      if templates E template_file = None then None
      else
        (case imread_screenshot s screenshot_path of
           None \<Rightarrow> None
         | Some screenshot_gray \<Rightarrow>
             (case imread_template E template_file of
                None \<Rightarrow> None
              | Some template_gray \<Rightarrow>
                  (case matchTemplate E screenshot_gray template_gray of
                     None \<Rightarrow> None
                   | Some result \<Rightarrow>
                       (case minMaxLoc result of
                          None \<Rightarrow> None
                        | Some (max_val, max_loc) \<Rightarrow>
                            if threshold \<le> max_val then
                              (let h = shape0 template_gray; w = shape1 template_gray;
                                   center_x = fst max_loc + int (w div 2);
                                   center_y = snd max_loc + int (h div 2)
                               in Some (center_x, center_y))
                            else None)))))"

fun find_template_multi_loop :: "env \<Rightarrow> state \<Rightarrow> string \<Rightarrow> nat \<Rightarrow> rat \<Rightarrow> string list \<Rightarrow> (int \<times> int) option" where
  "find_template_multi_loop E s template_name screenshot_path threshold [] = None"
| "find_template_multi_loop E s template_name screenshot_path threshold (directory # rest) =
     (case search_directory E s directory template_name screenshot_path threshold of
        Some coords \<Rightarrow> Some coords
      | None \<Rightarrow> find_template_multi_loop E s template_name screenshot_path threshold rest)"

definition find_template_multi :: "env \<Rightarrow> state \<Rightarrow> string \<Rightarrow> nat \<Rightarrow> rat \<Rightarrow> string list option \<Rightarrow> (int \<times> int) option" where
  "find_template_multi E s template_name screenshot_path threshold extra_dirs =
     (let extra_dirs = (case extra_dirs of None \<Rightarrow> [path_join ''assets'' ''image''] | Some ds \<Rightarrow> ds) in
      case find_template E s template_name screenshot_path threshold of
        Some coords \<Rightarrow> Some coords
      | None \<Rightarrow> find_template_multi_loop E s template_name screenshot_path threshold extra_dirs)"

fun find_and_tap_multi_loop :: "env \<Rightarrow> string \<Rightarrow> nat \<Rightarrow> rat \<Rightarrow> string list option \<Rightarrow> rat \<Rightarrow> nat list \<Rightarrow> state
    \<Rightarrow> (py_exc + bool) \<times> state" where
  "find_and_tap_multi_loop E template_name max_attempts wait_after extra_dirs threshold [] s = (Inr False, s)"
| "find_and_tap_multi_loop E template_name max_attempts wait_after extra_dirs threshold (attempt # rest) s =
     (case take_screenshot E s of
        (Inl e, s1) \<Rightarrow> (Inl e, s1)
      | (Inr screenshot_path, s1) \<Rightarrow>
          (case find_template_multi E s1 template_name screenshot_path threshold extra_dirs of
             Some coords \<Rightarrow>
               (let s2 = tap_coordinate (fst coords) (snd coords) s1;
                    s3 = (if 0 < wait_after then time_sleep wait_after s2 else s2)
                in (Inr True, remove_if_exists screenshot_path s3))
           | None \<Rightarrow>
               (let s2 = (if int attempt < int max_attempts - 1 then time_sleep 1 s1 else s1)
                in find_and_tap_multi_loop E template_name max_attempts wait_after extra_dirs threshold rest
                     (remove_if_exists screenshot_path s2))))"

definition find_and_tap_multi :: "env \<Rightarrow> string \<Rightarrow> nat \<Rightarrow> rat \<Rightarrow> string list option \<Rightarrow> rat \<Rightarrow> state
    \<Rightarrow> (py_exc + bool) \<times> state" where
  "find_and_tap_multi E template_name max_attempts wait_after extra_dirs threshold s =
     find_and_tap_multi_loop E template_name max_attempts wait_after extra_dirs threshold [0..<max_attempts] s"

text \<open>The set of entries of an array.\<close>

definition entries :: "'a ndarray \<Rightarrow> 'a set" where
  "entries a = (\<lambda>p. cell a (fst p) (snd p)) ` set (positions a)"

text \<open>
  The pipeline of the specification, stage by stage, written from its words: every match
  is mapped to its centroid (\<open>centroid\<close>); \<open>spec_dedupe\<close> keeps the first-encountered
  centroid of each cluster of radius 50; \<open>spec_filterByBrightness\<close> keeps the centroids
  that lie in the frame and whose luminance there exceeds the threshold.
\<close>

definition centroid :: "gray \<Rightarrow> int \<times> int \<Rightarrow> int \<times> int" where
  "centroid template_gray m =
     (fst m + int (shape1 template_gray div 2), snd m + int (shape0 template_gray div 2))"

fun spec_dedupe :: "(int \<times> int) list \<Rightarrow> (int \<times> int) list \<Rightarrow> (int \<times> int) list" where
  "spec_dedupe kept [] = kept"
| "spec_dedupe kept (c # cs) =
     (if list_ex (too_close c) kept then spec_dedupe kept cs else spec_dedupe (kept @ [c]) cs)"

definition inside :: "gray \<Rightarrow> int \<times> int \<Rightarrow> bool" where
  "inside g c = (0 \<le> fst c \<and> fst c < int (shape1 g) \<and> 0 \<le> snd c \<and> snd c < int (shape0 g))"

definition bright :: "gray \<Rightarrow> int \<Rightarrow> int \<times> int \<Rightarrow> bool" where
  "bright g bt c = (inside g c \<and> bt < int (cell g (nat (snd c)) (nat (fst c))))"

definition spec_filterByBrightness :: "gray \<Rightarrow> int \<Rightarrow> (int \<times> int) list \<Rightarrow> (int \<times> int) list" where
  "spec_filterByBrightness g bt cs = filter (bright g bt) cs"

definition spec_locateAndTapFiltered :: "gray \<Rightarrow> gray \<Rightarrow> scores \<Rightarrow> int \<Rightarrow> (int \<times> int) list" where
  "spec_locateAndTapFiltered g t result bt =
     spec_filterByBrightness g bt (spec_dedupe [] (map (centroid t) (np_where_ge result (4 / 5))))"

section \<open>Concrete scenarios\<close>

text \<open>A configuration with the values of the repository's \<open>config.json\<close>.\<close>

definition cfg0 :: config where
  "cfg0 = \<lparr>manual_choose = False, filter_rarity = ''SSR'', filter_speciality = ''POWER'',
            attempts_next = 10, wait_career = 10, wait_next = 1, wait_start_career = 2,
            wait_skip = 1, wait_confirm = 5, wait_loop = 5, tap_after_skip = (249, 948)\<rparr>"

text \<open>A 3 x 5 frame, and a store that holds one template of 2 x 4 pixels, whose score map
  on any frame has its maximum 9/10 at row 1, column 0.\<close>

definition frame35 :: gray where
  "frame35 = \<lparr>shape0 = 3, shape1 = 5, cell = (\<lambda>y x. 7)\<rparr>"

definition tmpl24 :: gray where
  "tmpl24 = \<lparr>shape0 = 2, shape1 = 4, cell = (\<lambda>y x. 7)\<rparr>"

definition map22 :: scores where
  "map22 = \<lparr>shape0 = 2, shape1 = 2, cell = (\<lambda>y x. if y = 1 \<and> x = 0 then 9 / 10 else 1 / 10)\<rparr>"

definition E_career :: env where
  "E_career = \<lparr>template_path = ''templates'',
      templates = (\<lambda>f. if f = ''templates/Career.png'' then Some (Some tmpl24) else None),
      matchTemplate = (\<lambda>f t. Some map22),
      screencap = (\<lambda>k. Exited 0 (Some frame35)), clock = (\<lambda>k. k), startup = None, cfg = cfg0\<rparr>"

definition s_frame :: state where
  "s_frame = \<lparr>ncap = 0, fs = (\<lambda>p. if p = 0 then Some (Some frame35) else None), trace = []\<rparr>"

text \<open>A frame of one row whose left pixel is dark and whose right pixel is bright, a
  template of one pixel (so a match is its own centroid), and a matcher that scores both
  positions of the frame above 0.8.\<close>

definition frame_dark_bright :: gray where
  "frame_dark_bright = \<lparr>shape0 = 1, shape1 = 2, cell = (\<lambda>y x. if x = 0 then 100 else 200)\<rparr>"

definition tmpl11 :: gray where
  "tmpl11 = \<lparr>shape0 = 1, shape1 = 1, cell = (\<lambda>y x. 200)\<rparr>"

definition map12 :: scores where
  "map12 = \<lparr>shape0 = 1, shape1 = 2, cell = (\<lambda>y x. 9 / 10)\<rparr>"

definition E_use :: env where
  "E_use = \<lparr>template_path = ''templates'',
      templates = (\<lambda>f. if f = ''templates/use.png'' then Some (Some tmpl11) else None),
      matchTemplate = (\<lambda>f t. Some map12),
      screencap = (\<lambda>k. Exited 0 (Some frame_dark_bright)), clock = (\<lambda>k. k), startup = None, cfg = cfg0\<rparr>"

definition s_use :: state where
  "s_use = \<lparr>ncap = 0, fs = (\<lambda>p. if p = 0 then Some (Some frame_dark_bright) else None), trace = []\<rparr>"

section \<open>The step sequencer\<close>

text \<open>\<open>str.upper\<close> on ASCII letters.\<close>

definition upper :: "string \<Rightarrow> string" where
  "upper s = map (\<lambda>c. let n = (of_char c :: nat) in if 97 \<le> n \<and> n \<le> 122 then char_of (n - 32) else c) s"

definition rarity_coords :: "(string \<times> int \<times> int) list" where
  "rarity_coords = [(''R'', (102, 408)), (''SR'', (437, 414)), (''SSR'', (777, 410))]"

definition speciality_coords :: "(string \<times> int \<times> int) list" where
  "speciality_coords =
     [(''SPEED'', (102, 627)), (''STAMINA'', (444, 623)), (''POWER'', (786, 618)),
      (''GUTS'', (109, 741)), (''WIT'', (442, 732)), (''PAL'', (777, 731))]"

definition run_filter_sequence :: "env \<Rightarrow> state \<Rightarrow> (py_exc + bool) \<times> state" where
  "run_filter_sequence E s =
     (let s1 = time_sleep (1 / 2) (tap_coordinate 747 1623 s);
          s2 = time_sleep (1 / 2) (tap_coordinate 786 203 s1);
          rarity_choice = upper (filter_rarity (cfg E));
          speciality_choice = upper (filter_speciality (cfg E))
      in case map_of rarity_coords rarity_choice of
           None \<Rightarrow> (Inr False, s2)
         | Some rc \<Rightarrow>
             (case map_of speciality_coords speciality_choice of
                None \<Rightarrow> (Inr False, s2)
              | Some sc \<Rightarrow>
                  (let s3 = time_sleep (1 / 5) (tap_coordinate (fst rc) (snd rc) s2);
                       s4 = time_sleep (1 / 5) (tap_coordinate (fst sc) (snd sc) s3)
                   in case find_and_tap E ''ok.png'' 10 0 s4 of
                        (Inl e, s5) \<Rightarrow> (Inl e, s5)
                      | (Inr found, s5) \<Rightarrow>
                          if \<not> found then (Inr False, s5)
                          else (Inr True, time_sleep (1 / 2) s5))))"

definition manual_choose_friend :: "env \<Rightarrow> state \<Rightarrow> (py_exc + bool) \<times> state" where
  "manual_choose_friend E s =
     (case find_and_tap_multi E ''plus.png'' 10 1 None (4 / 5) s of
        (Inl e, s1) \<Rightarrow> (Inl e, s1)
      | (Inr found, s1) \<Rightarrow>
          if \<not> found then (Inr False, s1)
          else
            (case find_and_tap_multi E ''following.png'' 5 (1 / 5) None (7 / 10) s1 of
               (Inl e, s2) \<Rightarrow> (Inl e, s2)
             | (Inr found, s2) \<Rightarrow>
                 if found then (Inr True, s2)
                 else
                   (case run_filter_sequence E s2 of
                      (Inl e, s3) \<Rightarrow> (Inl e, s3)
                    | (Inr ok, s3) \<Rightarrow>
                        if \<not> ok then (Inr False, s3)
                        else
                          (case find_and_tap_multi E ''following.png'' 5 (1 / 5) None (7 / 10) s3 of
                             (Inl e, s4) \<Rightarrow> (Inl e, s4)
                           | (Inr found, s4) \<Rightarrow> if found then (Inr True, s4) else (Inr False, s4)))))"

text \<open>\<open>tp_charge\<close>: the body of its \<open>try\<close>, then the \<open>except Exception\<close> around it.\<close>

definition tp_charge_body :: "env \<Rightarrow> state \<Rightarrow> (py_exc + bool) \<times> state" where
  "tp_charge_body E s =
     (case find_and_tap E ''restore.png'' 10 0 s of
        (Inl e, s1) \<Rightarrow> (Inl e, s1)
      | (Inr found, s1) \<Rightarrow>
          if \<not> found then (Inr False, s1)
          else
            (case take_screenshot E (wait (1 / 2) s1) of
               (Inl e, s2) \<Rightarrow> (Inl e, s2)
             | (Inr screenshot_path, s2) \<Rightarrow>
                 (case find_use_buttons_with_brightness_filter E s2 screenshot_path 170 of
                    [] \<Rightarrow> (Inr False, remove_if_exists screenshot_path s2)
                  | first_use_coord # _ \<Rightarrow>
                      (let s3 = tap_coordinate (fst first_use_coord) (snd first_use_coord) s2;
                           s4 = wait (1 / 2) (remove_if_exists screenshot_path s3)
                       in case find_and_tap E ''max.png'' 10 0 s4 of
                            (Inl e, s5) \<Rightarrow> (Inl e, s5)
                          | (Inr found, s5) \<Rightarrow>
                              if \<not> found then (Inr False, s5)
                              else
                                (case find_and_tap E ''ok.png'' 10 0 s5 of
                                   (Inl e, s6) \<Rightarrow> (Inl e, s6)
                                 | (Inr found, s6) \<Rightarrow>
                                     if \<not> found then (Inr False, s6)
                                     else
                                       (case find_and_tap E ''close.png'' 20 0 (wait (3 / 2) s6) of
                                          (Inl e, s7) \<Rightarrow> (Inl e, s7)
                                        | (Inr found, s7) \<Rightarrow>
                                            if \<not> found then (Inr False, s7)
                                            else (Inr True, wait (1 / 2) s7)))))))"

definition tp_charge :: "env \<Rightarrow> state \<Rightarrow> (py_exc + bool) \<times> state" where
  "tp_charge E s =
     (case tp_charge_body E s of
        (Inl e, s1) \<Rightarrow> if is_Exception e then (Inr False, s1) else (Inl e, s1)
      | (Inr b, s1) \<Rightarrow> (Inr b, s1))"

text \<open>
  How a part of the body of the main loop ends: it falls through to the next statement
  (\<open>Proceed\<close>), executes \<open>continue\<close>, executes \<open>break\<close>, or an exception leaves it.
\<close>

datatype flow = Proceed | Continue | Break | Raise py_exc

text \<open>The pattern \<open>if not self.find_and_tap(...): continue\<close>, followed by the rest \<open>k\<close>.\<close>

definition guard :: "(py_exc + bool) \<times> state \<Rightarrow> (state \<Rightarrow> flow \<times> state) \<Rightarrow> flow \<times> state" where
  "guard r k =
     (case r of
        (Inl e, s) \<Rightarrow> (Raise e, s)
      | (Inr found, s) \<Rightarrow> if \<not> found then (Continue, s) else k s)"

definition steps_1_4 :: "env \<Rightarrow> state \<Rightarrow> flow \<times> state" where
  "steps_1_4 E s =
     guard (find_and_tap E ''Career.png'' 10 0 s) (\<lambda>s.
     guard (find_and_tap E ''next.png'' (attempts_next (cfg E)) (wait_next (cfg E))
              (wait (wait_career (cfg E)) s)) (\<lambda>s.
     guard (find_and_tap E ''next.png'' (attempts_next (cfg E)) (wait_next (cfg E))
              (wait (1 / 2) s)) (\<lambda>s.
     guard (find_and_tap E ''auto_select_1.png'' 10 0 (wait (1 / 2) s)) (\<lambda>s.
     guard (find_and_tap E ''ok.png'' 10 0 (wait (1 / 2) s)) (\<lambda>s.
     guard (find_and_tap E ''next.png'' 10 0 (wait (1 / 2) s)) (\<lambda>s.
     (Proceed, wait 2 s)))))))"

definition step_5 :: "env \<Rightarrow> state \<Rightarrow> flow \<times> state" where
  "step_5 E s =
     (if manual_choose (cfg E) then
        (case manual_choose_friend E s of
           (Inl e, s1) \<Rightarrow> (Raise e, s1)
         | (Inr ok, s1) \<Rightarrow>
             if \<not> ok then (Break, emit (LogError ''Manual choose failed; stopping automation as requested'') s1)
             else (Proceed, s1))
      else (Proceed, s))"

text \<open>The local loop of steps 6 and 6.5; \<open>None\<close> when it never ends.\<close>

partial_function (option) step_6_loop :: "env \<Rightarrow> state \<Rightarrow> (flow \<times> state) option" where
  "step_6_loop E s =
     (case find_and_tap E ''start_career_1.png'' 10 0 s of
        (Inl e, s1) \<Rightarrow> Some (Raise e, s1)
      | (Inr found, s1) \<Rightarrow>
          if \<not> found then Some (Proceed, s1)
          else
            (case take_screenshot E (wait (1 / 2) s1) of
               (Inl e, s2) \<Rightarrow> Some (Raise e, s2)
             | (Inr screenshot_path, s2) \<Rightarrow>
                 (case find_template E s2 ''restore.png'' screenshot_path (4 / 5) of
                    None \<Rightarrow> Some (Proceed, remove_if_exists screenshot_path s2)
                  | Some coords \<Rightarrow>
                      (case tp_charge E s2 of
                         (Inl e, s3) \<Rightarrow> Some (Raise e, remove_if_exists screenshot_path s3)
                       | (Inr charged, s3) \<Rightarrow>
                           if charged then step_6_loop E (remove_if_exists screenshot_path s3)
                           else Some (Proceed, remove_if_exists screenshot_path s3)))))"

definition steps_6_11 :: "env \<Rightarrow> state \<Rightarrow> flow \<times> state" where
  "steps_6_11 E s =
     guard (find_and_tap E ''start_career_1.png'' 1 0 s) (\<lambda>s.
     guard (find_and_tap E ''start_career_2.png'' 10 0 s) (\<lambda>s.
     guard (find_and_tap E ''skip.png'' 10 0 (wait (wait_start_career (cfg E)) s)) (\<lambda>s.
     guard (find_and_tap E ''skip_btn.png'' 10 0 (wait (1 / 2) s)) (\<lambda>s.
     (let coords = tap_after_skip (cfg E)
      in (Proceed, tap_coordinate (fst coords) (snd coords) (wait (wait_skip (cfg E)) s)))))))"

definition step_12 :: "env \<Rightarrow> state \<Rightarrow> flow \<times> state" where
  "step_12 E s =
     (case take_screenshot E s of
        (Inl e, s1) \<Rightarrow> (Raise e, s1)
      | (Inr screenshot_path, s1) \<Rightarrow>
          (case find_template E s1 ''skip_off.png'' screenshot_path (4 / 5) of
             None \<Rightarrow> (Proceed, remove_if_exists screenshot_path s1)
           | Some coords \<Rightarrow>
               (let s2 = tap_coordinate (fst coords) (snd coords) s1;
                    s3 = tap_coordinate (fst coords) (snd coords) (time_sleep (1 / 5) s2);
                    s4 = time_sleep (1 / 5) s3
                in case take_screenshot E s4 of
                     (Inl e, s5) \<Rightarrow> (Raise e, remove_if_exists screenshot_path s5)
                   | (Inr screenshot_path_check, s5) \<Rightarrow>
                       (let s6 =
                          (case find_template E s5 ''skip_off.png'' screenshot_path_check (4 / 5) of
                             Some coords_off \<Rightarrow>
                               tap_coordinate (fst coords_off) (snd coords_off)
                                 (time_sleep (1 / 5) (tap_coordinate (fst coords_off) (snd coords_off) s5))
                           | None \<Rightarrow>
                               (case find_template E s5 ''skip_on_1.png'' screenshot_path_check (4 / 5) of
                                  Some coords_on1 \<Rightarrow> tap_coordinate (fst coords_on1) (snd coords_on1) s5
                                | None \<Rightarrow>
                                    (case find_template E s5 ''skip_on_2.png'' screenshot_path_check (4 / 5) of
                                       Some coords_on2 \<Rightarrow> s5
                                     | None \<Rightarrow> s5)))
                        in (Proceed, remove_if_exists screenshot_path
                                       (remove_if_exists screenshot_path_check s6))))))"

text \<open>\<open>for i in range(5): tap; sleep(0.5)\<close>.\<close>

fun tap_times :: "nat \<Rightarrow> int \<times> int \<Rightarrow> state \<Rightarrow> state" where
  "tap_times 0 coords s = s"
| "tap_times (Suc n) coords s = tap_times n coords (time_sleep (1 / 2) (tap_coordinate (fst coords) (snd coords) s))"

text \<open>Step 14.5, which the source writes out twice: after step 14 and inside the loop of
  step 16. \<open>Some e\<close> when the capture raises \<open>e\<close>.\<close>

definition step_14_5 :: "env \<Rightarrow> state \<Rightarrow> py_exc option \<times> state" where
  "step_14_5 E s =
     (case take_screenshot E s of
        (Inl e, s1) \<Rightarrow> (Some e, s1)
      | (Inr screenshot_path, s1) \<Rightarrow>
          (case find_template E s1 ''next.png'' screenshot_path (4 / 5) of
             Some coords \<Rightarrow> (None, remove_if_exists screenshot_path (tap_times 5 coords s1))
           | None \<Rightarrow> (None, remove_if_exists screenshot_path s1)))"

definition steps_13_15 :: "env \<Rightarrow> state \<Rightarrow> flow \<times> state" where
  "steps_13_15 E s =
     guard (find_and_tap E ''confirm.png'' 10 0 s) (\<lambda>s.
       (case step_14_5 E (wait (wait_confirm (cfg E)) (wait 1 s)) of
          (Some e, s1) \<Rightarrow> (Raise e, s1)
        | (None, s1) \<Rightarrow> guard (find_and_tap E ''menu.png'' 10 0 s1) (\<lambda>s. (Proceed, s))))"

text \<open>The loop between steps 14.5 and 16; \<open>None\<close> when it never ends.\<close>

partial_function (option) step_16_loop :: "env \<Rightarrow> state \<Rightarrow> (flow \<times> state) option" where
  "step_16_loop E s =
     (case find_and_tap E ''give_up_1.png'' 5 0 s of
        (Inl e, s1) \<Rightarrow> Some (Raise e, s1)
      | (Inr found, s1) \<Rightarrow>
          if found then Some (Proceed, s1)
          else
            (case step_14_5 E s1 of
               (Some e, s2) \<Rightarrow> Some (Raise e, s2)
             | (None, s2) \<Rightarrow>
                 (case find_and_tap E ''menu.png'' 10 0 s2 of
                    (Inl e, s3) \<Rightarrow> Some (Raise e, s3)
                  | (Inr found_menu, s3) \<Rightarrow> step_16_loop E s3)))"

definition steps_17_18 :: "env \<Rightarrow> state \<Rightarrow> flow \<times> state" where
  "steps_17_18 E s =
     guard (find_and_tap E ''give_up_2.png'' 5 0 s) (\<lambda>s. (Proceed, wait (wait_loop (cfg E)) s))"

text \<open>Running a part after another: the next part runs when the one before fell through.\<close>

definition and_then :: "(flow \<times> state) option \<Rightarrow> (state \<Rightarrow> (flow \<times> state) option) \<Rightarrow> (flow \<times> state) option" where
  "and_then r k =
     (case r of
        None \<Rightarrow> None
      | Some (fl, s) \<Rightarrow> if fl = Proceed then k s else Some (fl, s))"

text \<open>The body of \<open>while True\<close> in \<open>run_automation_loop\<close>, inside its \<open>try\<close>.\<close>

definition cycle :: "env \<Rightarrow> state \<Rightarrow> (flow \<times> state) option" where
  "cycle E s =
     and_then (Some (steps_1_4 E s)) (\<lambda>s.
     and_then (Some (step_5 E s)) (\<lambda>s.
     and_then (step_6_loop E s) (\<lambda>s.
     and_then (Some (steps_6_11 E s)) (\<lambda>s.
     and_then (Some (step_12 E s)) (\<lambda>s.
     and_then (Some (steps_13_15 E s)) (\<lambda>s.
     and_then (step_16_loop E s) (\<lambda>s.
     Some (steps_17_18 E s))))))))"

text \<open>
  \<open>run_automation_loop\<close>: \<open>None\<close> when the loop never ends; otherwise the exception that
  leaves the function, if any, and the final state. Of the log, the trace keeps the
  messages that tell the exits of the loop and its exception handler apart.
\<close>

partial_function (option) run_automation_loop :: "env \<Rightarrow> state \<Rightarrow> (py_exc option \<times> state) option" where
  "run_automation_loop E s =
     (case cycle E s of
        None \<Rightarrow> None
      | Some (fl, s1) \<Rightarrow>
          (case fl of
             Break \<Rightarrow> Some (None, s1)
           | Raise e \<Rightarrow>
               if e = KeyboardInterrupt then Some (None, emit (LogInfo ''Automation stopped by user'') s1)
               else if is_Exception e then
                 run_automation_loop E (time_sleep 10 (emit (LogError ''Error in automation loop'') s1))
               else Some (Some e, s1)
           | Continue \<Rightarrow> run_automation_loop E s1
           | Proceed \<Rightarrow> run_automation_loop E s1))"

text \<open>\<open>main\<close>: the exit status, or the exception that leaves it.\<close>

definition main :: "env \<Rightarrow> state \<Rightarrow> ((py_exc + int) \<times> state) option" where
  "main E s =
     (case startup E of
        Some e \<Rightarrow> if is_Exception e then Some (Inr 1, s) else Some (Inl e, s)
      | None \<Rightarrow>
          (case run_automation_loop E s of
             None \<Rightarrow> None
           | Some (Some e, s1) \<Rightarrow> if is_Exception e then Some (Inr 1, s1) else Some (Inl e, s1)
           | Some (None, s1) \<Rightarrow> Some (Inr 0, s1)))"

section \<open>Notions used to state the properties\<close>

text \<open>What \<open>find_template\<close> and one pass over a directory return on a screenshot file with
  content \<open>b\<close>: both read the state only through that file.\<close>

definition template_in :: "env \<Rightarrow> png \<Rightarrow> string \<Rightarrow> rat \<Rightarrow> (int \<times> int) option" where
  "template_in E b template_name threshold =
     find_template E \<lparr>ncap = 0, fs = (\<lambda>p. Some b), trace = []\<rparr> template_name 0 threshold"

definition directory_in :: "env \<Rightarrow> png \<Rightarrow> string \<Rightarrow> string \<Rightarrow> rat \<Rightarrow> (int \<times> int) option" where
  "directory_in E b directory template_name threshold =
     search_directory E \<lparr>ncap = 0, fs = (\<lambda>p. Some b), trace = []\<rparr> directory template_name 0 threshold"

text \<open>The exception \<open>take_screenshot\<close> raises on a result of the capture command, if any.\<close>

definition capture_error :: "adb_result \<Rightarrow> py_exc option" where
  "capture_error r =
     (case r of
        Exited returncode out \<Rightarrow> if returncode = 0 then None else Some RuntimeError
      | TimedOut \<Rightarrow> Some TimeoutExpired
      | Interrupted \<Rightarrow> Some KeyboardInterrupt)"

text \<open>
  The screenshot files written between two states, and the property that the operations
  leading from \<open>s\<close> to \<open>s'\<close> have released their frames: every file of the scratch
  directory after them was there before them, and none of the files written in between is
  left. The files in \<open>pending\<close> are exempt: they are those an enclosing operation still
  holds and removes itself; for a whole operation \<open>pending\<close> is empty.
\<close>

definition created :: "env \<Rightarrow> state \<Rightarrow> state \<Rightarrow> nat set" where
  "created E s s' = {clock E k | k. ncap s \<le> k \<and> k < ncap s' \<and> capture_error (screencap E k) = None}"

definition released :: "env \<Rightarrow> nat set \<Rightarrow> state \<Rightarrow> state \<Rightarrow> bool" where
  "released E pending s s' =
     (ncap s \<le> ncap s' \<and>
      (\<forall>p. fs s' p \<noteq> None \<longrightarrow> p \<notin> pending \<longrightarrow> fs s p \<noteq> None \<and> p \<notin> created E s s'))"

text \<open>The initial state: no capture made yet, an empty scratch directory, an empty trace.\<close>

definition s_init :: state where
  "s_init = \<lparr>ncap = 0, fs = (\<lambda>p. None), trace = []\<rparr>"

text \<open>A device that always delivers a frame on which every template scores 1/10.\<close>

definition map_low :: scores where
  "map_low = \<lparr>shape0 = 2, shape1 = 2, cell = (\<lambda>y x. 1 / 10)\<rparr>"

definition E_blank :: env where
  "E_blank = \<lparr>template_path = ''templates'',
      templates = (\<lambda>f. Some (Some tmpl24)),
      matchTemplate = (\<lambda>f t. Some map_low),
      screencap = (\<lambda>k. Exited 0 (Some frame35)), clock = (\<lambda>k. k), startup = None, cfg = cfg0\<rparr>"


text \<open>A template store that holds \<open>plus.png\<close> in the directory \<open>assets/second\<close> only.\<close>

definition E_roots :: env where
  "E_roots = \<lparr>template_path = ''templates'',
      templates = (\<lambda>f. if f = ''assets/second/plus.png'' then Some (Some tmpl24) else None),
      matchTemplate = (\<lambda>f t. Some map22),
      screencap = (\<lambda>k. Exited 0 (Some frame35)), clock = (\<lambda>k. k), startup = None, cfg = cfg0\<rparr>"

text \<open>
  A device with manual selection enabled on which every template is found except
  \<open>following.png\<close>, which is in no template directory; and the states the first cycle
  passes through on it: after step 4, after the tap on \<open>plus.png\<close>, after the first search
  for \<open>following.png\<close>, after the filter sequence, and after the second search.
\<close>

definition E_manual :: env where
  "E_manual = \<lparr>template_path = ''templates'',
      templates = (\<lambda>f. if f = ''templates/following.png'' \<or> f = ''assets/image/following.png''
                        then None else Some (Some tmpl24)),
      matchTemplate = (\<lambda>f t. Some map22),
      screencap = (\<lambda>k. Exited 0 (Some frame35)), clock = (\<lambda>k. k), startup = None,
      cfg = cfg0\<lparr>manual_choose := True\<rparr>\<rparr>"

definition sm1 :: state where
  "sm1 = snd (steps_1_4 E_manual s_init)"

definition sm2 :: state where
  "sm2 = snd (find_and_tap_multi E_manual ''plus.png'' 10 1 None (4 / 5) sm1)"

definition sm3 :: state where
  "sm3 = snd (find_and_tap_multi E_manual ''following.png'' 5 (1 / 5) None (7 / 10) sm2)"

definition sm4 :: state where
  "sm4 = snd (run_filter_sequence E_manual sm3)"

definition sm5 :: state where
  "sm5 = snd (find_and_tap_multi E_manual ''following.png'' 5 (1 / 5) None (7 / 10) sm4)"


section \<open>Properties of the template matcher\<close>

lemma set_positions: "set (positions a) = {(y, x). y < shape0 a \<and> x < shape1 a}"
  by (auto simp: positions_def)

lemma fold_scan_max:
  assumes "fst best = cell a (fst (snd best)) (snd (snd best))"
  shows "fst (fold (scan_max a) ps best) = Max (insert (fst best) ((\<lambda>p. cell a (fst p) (snd p)) ` set ps))
       \<and> snd (fold (scan_max a) ps best) \<in> insert (snd best) (set ps)
       \<and> fst (fold (scan_max a) ps best) = cell a (fst (snd (fold (scan_max a) ps best))) (snd (snd (fold (scan_max a) ps best)))"
  using assms
proof (induction ps arbitrary: best)
  case Nil
  then show ?case by simp
next
  case (Cons p ps)
  let ?b = "scan_max a p best"
  have inv: "fst ?b = cell a (fst (snd ?b)) (snd (snd ?b))"
    using Cons.prems by (simp add: scan_max_def)
  have mx: "fst ?b = max (fst best) (cell a (fst p) (snd p))"
    by (simp add: scan_max_def max_def)
  have mem: "snd ?b \<in> {snd best, p}"
    by (simp add: scan_max_def)
  note IH = Cons.IH [OF inv]
  let ?V = "(\<lambda>p. cell a (fst p) (snd p)) ` set ps"
  have "Max (insert (fst ?b) ?V) = Max (insert (fst best) (insert (cell a (fst p) (snd p)) ?V))"
  proof (cases "?V = {}")
    case True
    then show ?thesis by (simp add: mx)
  next
    case False
    then show ?thesis by (simp add: mx max.assoc)
  qed
  then have "Max (insert (fst ?b) ?V) = Max (insert (fst best) ((\<lambda>p. cell a (fst p) (snd p)) ` set (p # ps)))"
    by simp
  with IH mem show ?case by auto
qed


lemma minMaxLoc_max:
  assumes "0 < shape0 a" "0 < shape1 a"
  shows "\<exists>y x. y < shape0 a \<and> x < shape1 a \<and> cell a y x = Max (entries a)
           \<and> minMaxLoc a = Some (Max (entries a), int x, int y)"
proof -
  have "(0, 0) \<in> set (positions a)" using assms by (simp add: set_positions)
  then obtain p ps where pp: "positions a = p # ps" by (cases "positions a") auto
  define r where "r = fold (scan_max a) ps (cell a (fst p) (snd p), p)"
  have f: "fst r = Max (insert (cell a (fst p) (snd p)) ((\<lambda>p. cell a (fst p) (snd p)) ` set ps))
       \<and> snd r \<in> insert p (set ps) \<and> fst r = cell a (fst (snd r)) (snd (snd r))"
    unfolding r_def using fold_scan_max [of "(cell a (fst p) (snd p), p)" a ps] by simp
  have e: "entries a = insert (cell a (fst p) (snd p)) ((\<lambda>p. cell a (fst p) (snd p)) ` set ps)"
    by (simp add: entries_def pp)
  have m: "fst r = Max (entries a)" using f e by simp
  have "snd r \<in> set (positions a)" using f pp by simp
  then have b: "fst (snd r) < shape0 a \<and> snd (snd r) < shape1 a"
    unfolding set_positions by (cases "snd r") simp
  have c: "cell a (fst (snd r)) (snd (snd r)) = Max (entries a)" using f m by simp
  have "minMaxLoc a = Some (fst r, int (snd (snd r)), int (fst (snd r)))"
    unfolding minMaxLoc_def pp r_def by (simp add: Let_def)
  then have "minMaxLoc a = Some (Max (entries a), int (snd (snd r)), int (fst (snd r)))"
    using m by simp
  with b c show ?thesis by blast
qed

lemma find_template_unfold:
  assumes "templates E (path_join (template_path E) name) = Some (Some t)"
      and "fs s p = Some (Some f)"
      and "matchTemplate E f t = Some m"
      and "minMaxLoc m = Some (v, x, y)"
  shows "find_template E s name p thr =
           (if thr \<le> v then Some (x + int (shape1 t div 2), y + int (shape0 t div 2)) else None)"
  using assms by (simp add: find_template_def imread_screenshot_def imread_template_def Let_def)

lemma path_career: "path_join ''templates'' ''Career.png'' = ''templates/Career.png''"
  by (simp add: path_join_def)

lemma entries_map22: "entries map22 = {9 / 10, 1 / 10}"
proof -
  have "positions map22 = [(0, 0), (0, 1), (1, 0), (1, 1)]"
    by (simp add: positions_def map22_def upt_rec)
  then show ?thesis by (auto simp: entries_def map22_def)
qed

text \<open>
  Claim C5. When the template file exists, the frame and the template decode, and the
  matcher returns a (non-empty) score map, \<open>find_template\<close> returns a coordinate exactly
  when the largest score of the map reaches the threshold; the coordinate is then the
  position of a largest score plus half the template's width and half its height
  (integer division), that is the centre of the matched box and not its top-left corner;
  below the threshold nothing is returned.
\<close>

theorem find_template_centroid_iff:
  assumes "templates E (path_join (template_path E) name) = Some (Some t)"
      and "fs s p = Some (Some f)"
      and "matchTemplate E f t = Some m"
      and "0 < shape0 m" and "0 < shape1 m"
  shows "(thr \<le> Max (entries m) \<longrightarrow>
            (\<exists>y x. y < shape0 m \<and> x < shape1 m \<and> cell m y x = Max (entries m) \<and>
               find_template E s name p thr =
                 Some (int x + int (shape1 t div 2), int y + int (shape0 t div 2)))) \<and>
         (\<not> thr \<le> Max (entries m) \<longrightarrow> find_template E s name p thr = None)"
proof -
  obtain y x where yx: "y < shape0 m" "x < shape1 m" "cell m y x = Max (entries m)"
      "minMaxLoc m = Some (Max (entries m), int x, int y)"
    using minMaxLoc_max [OF assms(4,5)] by blast
  have "find_template E s name p thr =
      (if thr \<le> Max (entries m) then Some (int x + int (shape1 t div 2), int y + int (shape0 t div 2)) else None)"
    by (rule find_template_unfold [OF assms(1-3) yx(4)])
  with yx(1-3) show ?thesis by auto
qed

theorem find_template_centroid_iff_witness:
  "(\<exists>y x. y < 2 \<and> x < 2 \<and> cell map22 y x = 9 / 10 \<and>
      find_template E_career s_frame ''Career.png'' 0 (4 / 5) = Some (int x + 2, int y + 1)) \<and>
   find_template E_career s_frame ''Career.png'' 0 (19 / 20) = None"
proof -
  have a1: "templates E_career (path_join (template_path E_career) ''Career.png'') = Some (Some tmpl24)"
    by (simp add: E_career_def path_career)
  have a2: "fs s_frame 0 = Some (Some frame35)" by (simp add: s_frame_def)
  have a3: "matchTemplate E_career frame35 tmpl24 = Some map22" by (simp add: E_career_def)
  have a4: "0 < shape0 map22" and a5: "0 < shape1 map22" by (simp_all add: map22_def)
  have mx: "Max (entries map22) = 9 / 10" by (simp add: entries_map22)
  have sh: "shape0 map22 = 2" "shape1 map22 = 2" "shape1 tmpl24 div 2 = 2" "shape0 tmpl24 div 2 = 1"
    by (simp_all add: map22_def tmpl24_def)
  show ?thesis
    using find_template_centroid_iff [OF a1 a2 a3 a4 a5, of "4 / 5"]
          find_template_centroid_iff [OF a1 a2 a3 a4 a5, of "19 / 20"]
    by (simp add: mx sh)
qed

lemma path_use: "path_join ''templates'' ''use.png'' = ''templates/use.png''"
  by (simp add: path_join_def)

lemma positions_map12: "positions map12 = [(0, 0), (0, 1)]"
  by (simp add: positions_def map12_def upt_rec)

lemma np_where_map12: "np_where_ge map12 (4 / 5) = [(0, 0), (1, 0)]"
  by (simp add: np_where_ge_def positions_map12) (simp add: map12_def)

lemma np_where_nonneg: "m \<in> set (np_where_ge result thr) \<Longrightarrow> 0 \<le> fst m \<and> 0 \<le> snd m"
  by (auto simp: np_where_ge_def)

lemma getitem_inside:
  "0 \<le> y \<Longrightarrow> 0 \<le> x \<Longrightarrow> y < int (shape0 a) \<Longrightarrow> x < int (shape1 a) \<Longrightarrow>
   getitem a y x = Inr (cell a (nat y) (nat x))"
  by (simp add: getitem_def Let_def)

lemma use_loop_eq:
  assumes "\<forall>m \<in> set matches. 0 \<le> fst m \<and> 0 \<le> snd m"
  shows "use_loop g (shape0 t) (shape1 t) bt matches acc =
         Inr (spec_dedupe acc (spec_filterByBrightness g bt (map (centroid t) matches)))"
  using assms
proof (induction matches arbitrary: acc)
  case Nil
  then show ?case by (simp add: spec_filterByBrightness_def)
next
  case (Cons m ms)
  have nn: "0 \<le> fst m" "0 \<le> snd m" using Cons.prems by simp_all
  have rest: "\<forall>m \<in> set ms. 0 \<le> fst m \<and> 0 \<le> snd m" using Cons.prems by simp
  note IH = Cons.IH [OF rest]
  let ?c = "centroid t m"
  have c: "?c = (fst m + int (shape1 t div 2), snd m + int (shape0 t div 2))"
    by (simp add: centroid_def)
  have cn: "0 \<le> fst ?c" "0 \<le> snd ?c" using nn by (simp_all add: centroid_def)
  show ?case
  proof (cases "snd ?c < int (shape0 g) \<and> fst ?c < int (shape1 g)")
    case False
    then have nb: "\<not> bright g bt ?c" by (auto simp: bright_def inside_def)
    have "use_loop g (shape0 t) (shape1 t) bt (m # ms) acc = use_loop g (shape0 t) (shape1 t) bt ms acc"
      using False by (auto simp: c Let_def)
    then show ?thesis
      using IH nb by (simp add: spec_filterByBrightness_def)
  next
    case True
    then have gi: "getitem g (snd ?c) (fst ?c) = Inr (cell g (nat (snd ?c)) (nat (fst ?c)))"
      using cn by (simp add: getitem_inside)
    have br: "bright g bt ?c = (bt < int (cell g (nat (snd ?c)) (nat (fst ?c))))"
      using True cn by (simp add: bright_def inside_def)
    have "use_loop g (shape0 t) (shape1 t) bt (m # ms) acc =
        (if bright g bt ?c then
           (if list_ex (too_close ?c) acc then use_loop g (shape0 t) (shape1 t) bt ms acc
            else use_loop g (shape0 t) (shape1 t) bt ms (acc @ [?c]))
         else use_loop g (shape0 t) (shape1 t) bt ms acc)"
      using True gi unfolding br by (auto simp: c Let_def)
    then show ?thesis
      using IH by (simp add: spec_filterByBrightness_def)
  qed
qed

lemma find_use_buttons_eq:
  assumes "templates E (path_join (template_path E) ''use.png'') = Some (Some t)"
      and "fs s p = Some (Some f)"
      and "matchTemplate E f t = Some result"
  shows "find_use_buttons_with_brightness_filter E s p bt =
           spec_dedupe [] (spec_filterByBrightness f bt (map (centroid t) (np_where_ge result (4 / 5))))"
proof -
  have "\<forall>m \<in> set (np_where_ge result (4 / 5)). 0 \<le> fst m \<and> 0 \<le> snd m"
    using np_where_nonneg by blast
  then have "use_loop f (shape0 t) (shape1 t) bt (np_where_ge result (4 / 5)) [] =
      Inr (spec_dedupe [] (spec_filterByBrightness f bt (map (centroid t) (np_where_ge result (4 / 5)))))"
    by (rule use_loop_eq)
  then show ?thesis
    using assms
    by (simp add: find_use_buttons_with_brightness_filter_def imread_screenshot_def
        imread_template_def Let_def)
qed

lemma use_a1: "templates E_use (path_join (template_path E_use) ''use.png'') = Some (Some tmpl11)"
  by (simp add: E_use_def path_use)
lemma use_a2: "fs s_use 0 = Some (Some frame_dark_bright)" by (simp add: s_use_def)
lemma use_a3: "matchTemplate E_use frame_dark_bright tmpl11 = Some map12" by (simp add: E_use_def)

lemma centroids_use: "map (centroid tmpl11) (np_where_ge map12 (4 / 5)) = [(0, 0), (1, 0)]"
  by (simp add: np_where_map12 centroid_def tmpl11_def)

lemma bright_use: "\<not> bright frame_dark_bright 170 (0, 0)" "bright frame_dark_bright 170 (1, 0)"
  by (simp_all add: bright_def inside_def frame_dark_bright_def)

lemma close_use: "too_close (1, 0) (0, 0)"
  by (simp add: too_close_def)

text \<open>
  Claim C1, as the code has it. When the template file \<open>use.png\<close> exists, the frame and
  the template decode and the matcher returns a score map, the single-shot filtered locate
  returns: the positions with score at least 0.8 in scan order, each mapped to its
  centroid, then filtered (a centroid is kept when it lies in the frame and the luminance
  there exceeds the brightness threshold), and only then deduplicated (a kept centroid is
  dropped when it is strictly closer than 50 px to one kept before it). The brightness
  filter comes before the deduplication, not after it.
\<close>

theorem find_use_buttons_filter_then_dedupe:
  assumes "templates E (path_join (template_path E) ''use.png'') = Some (Some t)"
      and "fs s p = Some (Some f)"
      and "matchTemplate E f t = Some result"
  shows "find_use_buttons_with_brightness_filter E s p bt =
           spec_dedupe [] (spec_filterByBrightness f bt (map (centroid t) (np_where_ge result (4 / 5))))"
  using assms by (rule find_use_buttons_eq)

theorem find_use_buttons_filter_then_dedupe_witness:
  "find_use_buttons_with_brightness_filter E_use s_use 0 170 = [(1, 0)]"
  using find_use_buttons_filter_then_dedupe [OF use_a1 use_a2 use_a3, of 170]
  by (simp add: centroids_use spec_filterByBrightness_def bright_use)

text \<open>
  Claim C1, as stated (deduplicate first, filter by brightness afterwards), fails: on a
  frame whose first match is dark and whose second match, one pixel away, is bright, the
  code returns the bright match, while the stated order keeps the dark one as the
  representative of the cluster and then drops it, returning nothing.
\<close>

theorem spec_order_counterexample:
  "find_use_buttons_with_brightness_filter E_use s_use 0 170 = [(1, 0)] \<and>
   spec_locateAndTapFiltered frame_dark_bright tmpl11 map12 170 = [] \<and>
   find_use_buttons_with_brightness_filter E_use s_use 0 170
     \<noteq> spec_locateAndTapFiltered frame_dark_bright tmpl11 map12 170"
proof -
  have a: "find_use_buttons_with_brightness_filter E_use s_use 0 170 = [(1, 0)]"
    by (simp add: find_use_buttons_eq [OF use_a1 use_a2 use_a3]
        centroids_use spec_filterByBrightness_def bright_use)
  have b: "spec_locateAndTapFiltered frame_dark_bright tmpl11 map12 170 = []"
    by (simp add: spec_locateAndTapFiltered_def centroids_use close_use
        spec_filterByBrightness_def bright_use)
  from a b show ?thesis by simp
qed

lemma set_spec_dedupe: "set (spec_dedupe acc cs) \<subseteq> set acc \<union> set cs"
proof (induction cs arbitrary: acc)
  case Nil
  then show ?case by simp
next
  case (Cons c cs)
  have "set (spec_dedupe (acc @ [c]) cs) \<subseteq> set (acc @ [c]) \<union> set cs" by (rule Cons.IH)
  moreover have "set (spec_dedupe acc cs) \<subseteq> set acc \<union> set cs" by (rule Cons.IH)
  ultimately show ?case by auto
qed

lemma find_use_buttons_inside:
  assumes "fs s p = Some (Some f)" and "c \<in> set (find_use_buttons_with_brightness_filter E s p bt)"
  shows "inside f c"
proof (cases "templates E (path_join (template_path E) ''use.png'')")
  case None
  with assms(2) show ?thesis by (simp add: find_use_buttons_with_brightness_filter_def)
next
  case (Some b)
  show ?thesis
  proof (cases b)
    case None
    with Some assms show ?thesis
      by (simp add: find_use_buttons_with_brightness_filter_def imread_screenshot_def imread_template_def)
  next
    case (Some t)
    note t = \<open>templates E (path_join (template_path E) ''use.png'') = Some b\<close> [unfolded Some]
    show ?thesis
    proof (cases "matchTemplate E f t")
      case None
      with t assms show ?thesis
        by (simp add: find_use_buttons_with_brightness_filter_def imread_screenshot_def imread_template_def)
    next
      case (Some result)
      have "c \<in> set (spec_dedupe [] (spec_filterByBrightness f bt (map (centroid t) (np_where_ge result (4 / 5)))))"
        using assms(2) find_use_buttons_eq [OF t assms(1) Some] by simp
      then have "c \<in> set (spec_filterByBrightness f bt (map (centroid t) (np_where_ge result (4 / 5))))"
        using set_spec_dedupe by fastforce
      then show ?thesis by (simp add: spec_filterByBrightness_def bright_def)
    qed
  qed
qed

text \<open>
  Claim C10. The loop of \<open>find_use_buttons_with_brightness_filter\<close> reads the luminance
  only under the bounds check, so the read never raises \<open>IndexError\<close> (the loop always
  ends with a list), and every coordinate the function returns lies inside the frame: a
  match whose centroid is outside is dropped.
\<close>

theorem brightness_lookup_within_frame:
  assumes "fs s p = Some (Some f)"
  shows "(\<exists>r. use_loop f (shape0 (t::gray)) (shape1 t) bt (np_where_ge result thr) [] = Inr r) \<and>
         (\<forall>c \<in> set (find_use_buttons_with_brightness_filter E s p bt). inside f c)"
proof -
  have "\<forall>m \<in> set (np_where_ge result thr). 0 \<le> fst m \<and> 0 \<le> snd m"
    using np_where_nonneg by blast
  then have "\<exists>r. use_loop f (shape0 t) (shape1 t) bt (np_where_ge result thr) [] = Inr r"
    by (simp add: use_loop_eq)
  moreover have "\<forall>c \<in> set (find_use_buttons_with_brightness_filter E s p bt). inside f c"
    using find_use_buttons_inside [OF assms] by blast
  ultimately show ?thesis by blast
qed

theorem brightness_lookup_within_frame_witness:
  "(\<exists>r. use_loop frame_dark_bright (shape0 tmpl11) (shape1 tmpl11) 170 (np_where_ge map12 (4 / 5)) [] = Inr r) \<and>
   find_use_buttons_with_brightness_filter E_use s_use 0 170 = [(1, 0)] \<and>
   inside frame_dark_bright (1, 0)"
proof -
  have "find_use_buttons_with_brightness_filter E_use s_use 0 170 = [(1, 0)]"
    by (simp add: find_use_buttons_eq [OF use_a1 use_a2 use_a3]
        centroids_use spec_filterByBrightness_def bright_use)
  then show ?thesis
    using brightness_lookup_within_frame [OF use_a2, of tmpl11 170 map12 "4 / 5" E_use] by simp
qed

text \<open>
  Claim C6. Raising the threshold can only remove matches: what \<open>find_template\<close> accepts
  at the higher threshold it accepts, with the same coordinate, at the lower one, and the
  positions selected by \<open>result >= threshold\<close> at the higher threshold are among those
  selected at the lower one.
\<close>

theorem threshold_monotone:
  assumes "t1 < t2"
  shows "(find_template E s name p t2 = Some c \<longrightarrow> find_template E s name p t1 = Some c) \<and>
         set (np_where_ge result t2) \<subseteq> set (np_where_ge result t1)"
proof -
  have "find_template E s name p t1 = Some c" if "find_template E s name p t2 = Some c"
    using that assms
    by (auto simp: find_template_def Let_def split: option.splits if_splits)
  moreover have "set (np_where_ge result t2) \<subseteq> set (np_where_ge result t1)"
    using assms by (auto simp: np_where_ge_def)
  ultimately show ?thesis by blast
qed

theorem threshold_monotone_witness:
  "(7 / 10 :: rat) < 4 / 5 \<and>
   find_template E_career s_frame ''Career.png'' 0 (4 / 5) = Some (2, 2) \<and>
   find_template E_career s_frame ''Career.png'' 0 (7 / 10) = Some (2, 2) \<and>
   (0, 1) \<in> set (np_where_ge map22 (4 / 5)) \<and>
   (0, 1) \<in> set (np_where_ge map22 (7 / 10))"
proof -
  have lt: "(7 / 10 :: rat) < 4 / 5" by simp
  have mm: "minMaxLoc map22 = Some (9 / 10, 0, 1)" by code_simp
  have ft: "find_template E_career s_frame ''Career.png'' 0 (4 / 5) = Some (2, 2)"
    by (simp add: find_template_def Let_def E_career_def path_career s_frame_def
        imread_screenshot_def imread_template_def mm tmpl24_def)
  have "positions map22 = [(0, 0), (0, 1), (1, 0), (1, 1)]"
    by (simp add: positions_def map22_def upt_rec)
  then have mem: "(0, 1) \<in> set (np_where_ge map22 (4 / 5))"
    by (simp add: np_where_ge_def) (simp add: map22_def)
  have "(0, 1) \<in> set (np_where_ge map22 (7 / 10))"
    using threshold_monotone [OF lt, of E_career s_frame "''Career.png''" 0 "(2, 2)" map22] mem
    by blast
  moreover have "find_template E_career s_frame ''Career.png'' 0 (7 / 10) = Some (2, 2)"
    using threshold_monotone [OF lt, of E_career s_frame "''Career.png''" 0 "(2, 2)" map22] ft
    by blast
  ultimately show ?thesis using lt ft mem by simp
qed

section \<open>Properties of the device primitives\<close>

lemma emit_simps [simp]:
  "ncap (emit ev s) = ncap s" "fs (emit ev s) = fs s" "trace (emit ev s) = trace s @ [ev]"
  by (simp_all add: emit_def)

lemma wait_simps [simp]:
  "ncap (wait d s) = ncap s" "fs (wait d s) = fs s" "trace (wait d s) = trace s @ [Sleep d]"
  by (simp_all add: wait_def)

lemma time_sleep_simps [simp]:
  "ncap (time_sleep d s) = ncap s" "fs (time_sleep d s) = fs s" "trace (time_sleep d s) = trace s @ [Sleep d]"
  by (simp_all add: time_sleep_def)

lemma tap_coordinate_simps [simp]:
  "ncap (tap_coordinate x y s) = ncap s" "fs (tap_coordinate x y s) = fs s"
  "trace (tap_coordinate x y s) = trace s @ [Tap x y]"
  by (simp_all add: tap_coordinate_def)

lemma remove_if_exists_simps [simp]:
  "ncap (remove_if_exists p s) = ncap s" "fs (remove_if_exists p s) = (fs s)(p := None)"
  "trace (remove_if_exists p s) = trace s"
  by (simp_all add: remove_if_exists_def)

lemma take_screenshot_ok:
  assumes "screencap E (ncap s) = Exited 0 b"
  shows "take_screenshot E s =
           (Inr (clock E (ncap s)),
            s\<lparr>ncap := Suc (ncap s), trace := trace s @ [Capture], fs := (fs s)(clock E (ncap s) \<mapsto> b)\<rparr>)"
  using assms by (simp add: take_screenshot_def Let_def emit_def)


lemma find_template_reads_file:
  assumes "fs s p = Some b"
  shows "find_template E s name p thr = template_in E b name thr"
proof -
  have "imread_screenshot s p = imread_screenshot \<lparr>ncap = 0, fs = (\<lambda>p. Some b), trace = []\<rparr> 0"
    using assms by (simp add: imread_screenshot_def)
  then show ?thesis by (simp only: find_template_def template_in_def)
qed

lemma search_directory_reads_file:
  assumes "fs s p = Some b"
  shows "search_directory E s d name p thr = directory_in E b d name thr"
proof -
  have "imread_screenshot s p = imread_screenshot \<lparr>ncap = 0, fs = (\<lambda>p. Some b), trace = []\<rparr> 0"
    using assms by (simp add: imread_screenshot_def)
  then show ?thesis by (simp only: search_directory_def directory_in_def)
qed

section \<open>Retries of find_and_tap\<close>

lemma find_and_tap_loop_miss:
  assumes "screencap E (ncap s) = Exited 0 b" and "template_in E b name (4 / 5) = None"
  shows "\<exists>s2. find_and_tap_loop E name n w (k # rest) s = find_and_tap_loop E name n w rest s2 \<and>
               ncap s2 = Suc (ncap s) \<and>
               trace s2 = trace s @ (if Suc k < n then [Capture, Sleep 1] else [Capture])"
proof -
  let ?p = "clock E (ncap s)"
  let ?s1 = "s\<lparr>ncap := Suc (ncap s), trace := trace s @ [Capture], fs := (fs s)(?p \<mapsto> b)\<rparr>"
  have ts: "take_screenshot E s = (Inr ?p, ?s1)" by (rule take_screenshot_ok [OF assms(1)])
  have "fs ?s1 ?p = Some b" by simp
  then have ft: "find_template E ?s1 name ?p (4 / 5) = None"
    using assms(2) by (simp add: find_template_reads_file)
  let ?s2 = "remove_if_exists ?p (if int k < int n - 1 then wait 1 ?s1 else ?s1)"
  have "find_and_tap_loop E name n w (k # rest) s = find_and_tap_loop E name n w rest ?s2"
    by (simp add: ts ft Let_def)
  moreover have "ncap ?s2 = Suc (ncap s)" by simp
  moreover have "trace ?s2 = trace s @ (if Suc k < n then [Capture, Sleep 1] else [Capture])"
    by auto
  ultimately show ?thesis by blast
qed

lemma find_and_tap_loop_never:
  assumes "\<forall>i < n - k. \<exists>b. screencap E (ncap s + i) = Exited 0 b \<and> template_in E b name (4 / 5) = None"
  shows "\<exists>s'. find_and_tap_loop E name n w [k..<n] s = (Inr False, s') \<and>
              ncap s' = ncap s + (n - k) \<and>
              trace s' = trace s @ concat (map (\<lambda>i. if Suc i < n then [Capture, Sleep 1] else [Capture]) [k..<n])"
  using assms
proof (induction "n - k" arbitrary: k s)
  case 0
  then show ?case by simp
next
  case (Suc m)
  then have kn: "k < n" and m: "m = n - Suc k" by simp_all
  have upt: "[k..<n] = k # [Suc k..<n]" using kn by (simp add: upt_conv_Cons)
  obtain b where b: "screencap E (ncap s) = Exited 0 b" "template_in E b name (4 / 5) = None"
    using Suc.prems kn by (metis add.right_neutral zero_less_diff)
  obtain s2 where s2: "find_and_tap_loop E name n w (k # [Suc k..<n]) s = find_and_tap_loop E name n w [Suc k..<n] s2"
      "ncap s2 = Suc (ncap s)"
      "trace s2 = trace s @ (if Suc k < n then [Capture, Sleep 1] else [Capture])"
    using find_and_tap_loop_miss [OF b] by blast
  have "\<forall>i < n - Suc k. \<exists>b. screencap E (ncap s2 + i) = Exited 0 b \<and> template_in E b name (4 / 5) = None"
  proof (intro allI impI)
    fix i assume "i < n - Suc k"
    then have "Suc i < n - k" by simp
    then show "\<exists>b. screencap E (ncap s2 + i) = Exited 0 b \<and> template_in E b name (4 / 5) = None"
      using Suc.prems s2(2) by (metis add_Suc add_Suc_right)
  qed
  from Suc.hyps(1) [OF m this]
  obtain s' where s': "find_and_tap_loop E name n w [Suc k..<n] s2 = (Inr False, s')"
      "ncap s' = ncap s2 + (n - Suc k)"
      "trace s' = trace s2 @ concat (map (\<lambda>i. if Suc i < n then [Capture, Sleep 1] else [Capture]) [Suc k..<n])"
    by blast
  have "find_and_tap_loop E name n w [k..<n] s = (Inr False, s')"
    using s2(1) s'(1) upt by simp
  moreover have "ncap s' = ncap s + (n - k)" using s'(2) s2(2) kn by simp
  moreover have "trace s' = trace s @ concat (map (\<lambda>i. if Suc i < n then [Capture, Sleep 1] else [Capture]) [k..<n])"
    unfolding upt using s'(3) s2(3) by simp
  ultimately show ?case by blast
qed

lemma attempts_trace:
  "0 < n \<Longrightarrow> concat (map (\<lambda>i. if Suc i < n then [Capture, Sleep 1] else [Capture]) [0..<n])
     = concat (replicate (n - 1) [Capture, Sleep 1]) @ [Capture]"
proof -
  assume "0 < n"
  then obtain m where n: "n = Suc m" by (cases n) auto
  have "map (\<lambda>i. if Suc i < Suc m then [Capture, Sleep 1] else [Capture]) [0..<m]
      = replicate m [Capture, Sleep 1]"
    by (rule nth_equalityI) simp_all
  then show ?thesis by (simp add: n)
qed

text \<open>
  Claim C3. When \<open>find_and_tap\<close> is called with \<open>max_attempts = n\<close>, \<open>n\<close> at least 1, and
  each of the next \<open>n\<close> captures delivers a frame on which the template is not found, the
  call returns \<open>False\<close> after exactly \<open>n\<close> captures; what it adds to the trace is \<open>n - 1\<close>
  times a capture followed by a one-second wait, and then the last capture with no wait
  after it: there is no tap.
\<close>

theorem find_and_tap_exhausts_attempts:
  assumes "1 \<le> n"
      and "\<forall>i < n. \<exists>b. screencap E (ncap s + i) = Exited 0 b \<and> template_in E b name (4 / 5) = None"
  shows "\<exists>s'. find_and_tap E name n w s = (Inr False, s') \<and>
              ncap s' = ncap s + n \<and>
              trace s' = trace s @ concat (replicate (n - 1) [Capture, Sleep 1]) @ [Capture]"
proof -
  have "\<forall>i < n - 0. \<exists>b. screencap E (ncap s + i) = Exited 0 b \<and> template_in E b name (4 / 5) = None"
    using assms(2) by simp
  from find_and_tap_loop_never [OF this, of w]
  obtain s' where "find_and_tap_loop E name n w [0..<n] s = (Inr False, s')"
      "ncap s' = ncap s + (n - 0)"
      "trace s' = trace s @ concat (map (\<lambda>i. if Suc i < n then [Capture, Sleep 1] else [Capture]) [0..<n])"
    by blast
  then show ?thesis
    using assms(1) by (simp add: find_and_tap_def attempts_trace)
qed

lemma template_in_blank: "template_in E_blank (Some frame35) name (4 / 5) = None"
proof -
  have "minMaxLoc map_low = Some (1 / 10, 0, 0)" by code_simp
  then show ?thesis
    by (simp add: template_in_def find_template_def E_blank_def Let_def imread_screenshot_def
        imread_template_def)
qed

theorem find_and_tap_exhausts_attempts_witness:
  "\<exists>s'. find_and_tap E_blank ''Career.png'' 3 0 s_init = (Inr False, s') \<and> ncap s' = 3 \<and>
        trace s' = [Capture, Sleep 1, Capture, Sleep 1, Capture]"
proof -
  have h: "\<forall>i < 3. \<exists>b. screencap E_blank (ncap s_init + i) = Exited 0 b \<and>
             template_in E_blank b ''Career.png'' (4 / 5) = None"
    using template_in_blank by (simp add: E_blank_def)
  have r: "replicate 2 [Capture, Sleep 1] = [[Capture, Sleep 1], [Capture, Sleep 1]]"
    by (simp add: numeral_2_eq_2)
  show ?thesis
    using find_and_tap_exhausts_attempts [of 3 E_blank s_init "''Career.png''" 0, OF _ h]
    by (simp add: r s_init_def)
qed

section \<open>Which errors leave the locate-and-tap operations\<close>












section \<open>The order of the template directories\<close>

lemma find_template_primary:
  "find_template E s name p thr = search_directory E s (template_path E) name p thr"
  by (simp only: find_template_def search_directory_def)

lemma find_template_multi_loop_find:
  "find_template_multi_loop E s name p thr dirs =
     (case List.find (\<lambda>d. search_directory E s d name p thr \<noteq> None) dirs of
        None \<Rightarrow> None
      | Some d \<Rightarrow> search_directory E s d name p thr)"
  by (induction dirs) (auto split: option.splits)

lemma find_template_multi_find:
  "find_template_multi E s name p thr (Some dirs) =
     (case List.find (\<lambda>d. search_directory E s d name p thr \<noteq> None) (template_path E # dirs) of
        None \<Rightarrow> None
      | Some d \<Rightarrow> search_directory E s d name p thr)"
  by (auto simp: find_template_multi_def find_template_primary find_template_multi_loop_find
      split: option.splits)

lemma find_template_multi_loop_stops:
  assumes "\<forall>r \<in> set pre. search_directory E s r name p thr = None"
      and "search_directory E s d name p thr = Some c"
  shows "find_template_multi_loop E s name p thr (pre @ d # post) = Some c"
  using assms by (induction pre) simp_all

lemma find_template_multi_stops:
  assumes "find_template E s name p thr = None"
      and "\<forall>r \<in> set pre. search_directory E s r name p thr = None"
      and "search_directory E s d name p thr = Some c"
  shows "find_template_multi E s name p thr (Some (pre @ d # post)) = Some c"
  using assms by (simp add: find_template_multi_def find_template_multi_loop_stops)

lemma find_and_tap_multi_acts:
  assumes "screencap E (ncap s) = Exited 0 b"
      and "template_in E b name thr = None"
      and "\<forall>r \<in> set pre. directory_in E b r name thr = None"
      and "directory_in E b d name thr = Some c"
  shows "\<exists>s'. find_and_tap_multi E name (Suc n) w (Some (pre @ d # post)) thr s = (Inr True, s') \<and>
              trace s' = trace s @ [Capture, Tap (fst c) (snd c)] @ (if 0 < w then [Sleep w] else [])"
proof -
  let ?p = "clock E (ncap s)"
  let ?s1 = "s\<lparr>ncap := Suc (ncap s), trace := trace s @ [Capture], fs := (fs s)(?p \<mapsto> b)\<rparr>"
  have ts: "take_screenshot E s = (Inr ?p, ?s1)" by (rule take_screenshot_ok [OF assms(1)])
  have f: "fs ?s1 ?p = Some b" by simp
  have "find_template_multi E ?s1 name ?p thr (Some (pre @ d # post)) = Some c"
    by (rule find_template_multi_stops)
      (simp_all add: find_template_reads_file [OF f] search_directory_reads_file [OF f] assms)
  then have "find_and_tap_multi_loop E name (Suc n) w (Some (pre @ d # post)) thr (0 # [1..<Suc n]) s =
      (Inr True, remove_if_exists ?p
         (if 0 < w then time_sleep w (tap_coordinate (fst c) (snd c) ?s1)
          else tap_coordinate (fst c) (snd c) ?s1))"
    using ts by (simp add: Let_def)
  moreover have "[0..<Suc n] = 0 # [1..<Suc n]" by (simp add: upt_conv_Cons)
  ultimately show ?thesis
    by (simp add: find_and_tap_multi_def)
qed

text \<open>
  Claim C7. \<open>find_template_multi\<close> returns what the first directory that yields a match
  returns, the directories taken in the order: the primary template directory, then the
  extra directories as listed (\<open>assets/image\<close> alone when no list is given). Hence, when
  the primary directory and the extra directories before \<open>d\<close> yield nothing and \<open>d\<close>
  yields a match, that match is the result whatever directories are listed after \<open>d\<close>,
  and an attempt of \<open>find_and_tap_multi\<close> on such a frame taps that match and returns
  \<open>True\<close>, again whatever is listed after \<open>d\<close>.
\<close>

theorem multi_root_search_order:
  "find_template_multi E s name p thr (Some dirs) =
     (case List.find (\<lambda>d. search_directory E s d name p thr \<noteq> None) (template_path E # dirs) of
        None \<Rightarrow> None
      | Some d \<Rightarrow> search_directory E s d name p thr) \<and>
   find_template_multi E s name p thr None = find_template_multi E s name p thr (Some [''assets/image'']) \<and>
   (find_template E s name p thr = None \<and>
    (\<forall>r \<in> set pre. search_directory E s r name p thr = None) \<and>
    search_directory E s d name p thr = Some c \<longrightarrow>
      (\<forall>post. find_template_multi E s name p thr (Some (pre @ d # post)) = Some c)) \<and>
   (screencap E (ncap s) = Exited 0 b \<and> template_in E b name thr = None \<and>
    (\<forall>r \<in> set pre. directory_in E b r name thr = None) \<and>
    directory_in E b d name thr = Some c \<longrightarrow>
      (\<forall>post. \<exists>s'. find_and_tap_multi E name (Suc n) w (Some (pre @ d # post)) thr s = (Inr True, s') \<and>
          trace s' = trace s @ [Capture, Tap (fst c) (snd c)] @ (if 0 < w then [Sleep w] else [])))"
proof (intro conjI impI allI)
  show "find_template_multi E s name p thr (Some dirs) =
     (case List.find (\<lambda>d. search_directory E s d name p thr \<noteq> None) (template_path E # dirs) of
        None \<Rightarrow> None
      | Some d \<Rightarrow> search_directory E s d name p thr)"
    by (rule find_template_multi_find)
  show "find_template_multi E s name p thr None = find_template_multi E s name p thr (Some [''assets/image''])"
    by (simp add: find_template_multi_def path_join_def)
next
  fix post
  assume "find_template E s name p thr = None \<and>
    (\<forall>r \<in> set pre. search_directory E s r name p thr = None) \<and>
    search_directory E s d name p thr = Some c"
  then show "find_template_multi E s name p thr (Some (pre @ d # post)) = Some c"
    by (simp add: find_template_multi_stops)
next
  fix post
  assume "screencap E (ncap s) = Exited 0 b \<and> template_in E b name thr = None \<and>
    (\<forall>r \<in> set pre. directory_in E b r name thr = None) \<and>
    directory_in E b d name thr = Some c"
  then show "\<exists>s'. find_and_tap_multi E name (Suc n) w (Some (pre @ d # post)) thr s = (Inr True, s') \<and>
          trace s' = trace s @ [Capture, Tap (fst c) (snd c)] @ (if 0 < w then [Sleep w] else [])"
    using find_and_tap_multi_acts [of E s b name thr pre d c n w post] by blast
qed

lemma roots_minMaxLoc: "minMaxLoc map22 = Some (9 / 10, 0, 1)"
  by code_simp

lemma roots_primary: "template_in E_roots b ''plus.png'' (4 / 5) = None"
  by (simp add: template_in_def find_template_def E_roots_def path_join_def)

lemma roots_first: "directory_in E_roots b ''assets/image'' ''plus.png'' (4 / 5) = None"
  by (simp add: directory_in_def search_directory_def E_roots_def path_join_def)

lemma roots_second: "directory_in E_roots (Some frame35) ''assets/second'' ''plus.png'' (4 / 5) = Some (2, 2)"
  by (simp add: directory_in_def search_directory_def E_roots_def path_join_def
      imread_screenshot_def imread_template_def roots_minMaxLoc tmpl24_def)

theorem multi_root_search_order_witness:
  "\<exists>s'. find_and_tap_multi E_roots ''plus.png'' 10 0
           (Some [''assets/image'', ''assets/second'', ''assets/third'']) (4 / 5) s_init = (Inr True, s') \<and>
        trace s' = [Capture, Tap 2 2]"
proof -
  have c: "screencap E_roots (ncap s_init) = Exited 0 (Some frame35)" by (simp add: E_roots_def)
  have t: "trace s_init = []" by (simp add: s_init_def)
  have "\<forall>post. \<exists>s'. find_and_tap_multi E_roots ''plus.png'' (Suc 9) 0
           (Some ([''assets/image''] @ ''assets/second'' # post)) (4 / 5) s_init = (Inr True, s') \<and>
        trace s' = trace s_init @ [Capture, Tap (fst (2 :: int, 2 :: int)) (snd (2 :: int, 2 :: int))] @ (if (0::rat) < 0 then [Sleep 0] else [])"
    using multi_root_search_order [where E = E_roots and s = s_init and name = "''plus.png''"
        and thr = "4 / 5" and b = "Some frame35" and pre = "[''assets/image'']"
        and d = "''assets/second''" and c = "(2, 2) :: int \<times> int" and n = 9 and w = 0 and p = 0 and dirs = "[]"]
      c roots_primary roots_first roots_second
    by simp
  then have "\<exists>s'. find_and_tap_multi E_roots ''plus.png'' (Suc 9) 0
           (Some ([''assets/image''] @ ''assets/second'' # [''assets/third''])) (4 / 5) s_init = (Inr True, s') \<and>
        trace s' = trace s_init @ [Capture, Tap (fst (2 :: int, 2 :: int)) (snd (2 :: int, 2 :: int))] @ (if (0::rat) < 0 then [Sleep 0] else [])"
    by blast
  then show ?thesis by (simp add: t)
qed

section \<open>Frames are released\<close>










lemma released_remove:
  assumes "released E (insert p P) s s1"
  shows "released E P s (remove_if_exists p s1)"
  using assms by (auto simp: released_def created_def)

lemma released_weaken: "released E P s s1 \<Longrightarrow> P \<subseteq> P' \<Longrightarrow> released E P' s s1"
  by (auto simp: released_def)

lemma released_remove_any: "released E P s s1 \<Longrightarrow> released E P s (remove_if_exists p s1)"
  by (rule released_remove) (erule released_weaken, blast)
































lemma find_and_tap_hit:
  assumes "0 < n" and "screencap E (ncap s) = Exited 0 b" and "template_in E b name (4 / 5) = Some c"
  shows "find_and_tap E name n w s =
           (Inr True,
            remove_if_exists (clock E (ncap s))
              ((if 0 < w then wait w else id)
                 (tap_coordinate (fst c) (snd c)
                    (s\<lparr>ncap := Suc (ncap s), trace := trace s @ [Capture],
                       fs := (fs s)(clock E (ncap s) \<mapsto> b)\<rparr>))))"
proof -
  let ?p = "clock E (ncap s)"
  let ?s1 = "s\<lparr>ncap := Suc (ncap s), trace := trace s @ [Capture], fs := (fs s)(?p \<mapsto> b)\<rparr>"
  have ts: "take_screenshot E s = (Inr ?p, ?s1)" by (rule take_screenshot_ok [OF assms(2)])
  have "fs ?s1 ?p = Some b" by simp
  then have ft: "find_template E ?s1 name ?p (4 / 5) = Some c"
    using assms(3) by (simp add: find_template_reads_file)
  have upt: "[0..<n] = 0 # [1..<n]" using assms(1) by (simp add: upt_conv_Cons)
  show ?thesis
    unfolding find_and_tap_def upt by (simp add: ts ft Let_def)
qed






section \<open>The exits of the automation loop\<close>

lemma guard_not_break:
  assumes "\<And>s1. fst (k s1) \<noteq> Break"
  shows "fst (guard r k) \<noteq> Break"
proof (cases r)
  case (Pair x s1)
  then show ?thesis using assms by (cases x) (simp_all add: guard_def)
qed

lemma steps_1_4_not_break: "fst (steps_1_4 E s) \<noteq> Break"
  unfolding steps_1_4_def by (intro guard_not_break) simp

lemma steps_6_11_not_break: "fst (steps_6_11 E s) \<noteq> Break"
  unfolding steps_6_11_def Let_def by (intro guard_not_break) simp

lemma step_12_not_break: "fst (step_12 E s) \<noteq> Break"
  unfolding step_12_def Let_def by (simp split: prod.splits sum.splits option.splits)

lemma steps_13_15_not_break: "fst (steps_13_15 E s) \<noteq> Break"
  unfolding steps_13_15_def
  by (intro guard_not_break) (auto split: prod.splits option.splits intro!: guard_not_break)

lemma steps_17_18_not_break: "fst (steps_17_18 E s) \<noteq> Break"
  unfolding steps_17_18_def by (intro guard_not_break) simp

lemma step_6_loop_not_break:
  assumes "step_6_loop E s = Some y"
  shows "fst y \<noteq> Break"
proof (rule step_6_loop.raw_induct [where P = "\<lambda>E s y. fst y \<noteq> Break", OF _ assms], goal_cases)
  case (1 f E s y)
  then show ?case
    by (auto split: prod.splits sum.splits option.splits if_splits)
qed

lemma step_16_loop_not_break:
  assumes "step_16_loop E s = Some y"
  shows "fst y \<noteq> Break"
proof (rule step_16_loop.raw_induct [where P = "\<lambda>E s y. fst y \<noteq> Break", OF _ assms], goal_cases)
  case (1 f E s y)
  then show ?case
    by (auto split: prod.splits sum.splits option.splits if_splits)
qed

lemma and_then_not_break:
  assumes "pred_option (\<lambda>y. fst y \<noteq> Break) r"
      and "\<And>s1. pred_option (\<lambda>y. fst y \<noteq> Break) (k s1)"
  shows "pred_option (\<lambda>y. fst y \<noteq> Break) (and_then r k)"
proof (cases r)
  case None
  then show ?thesis by (simp add: and_then_def)
next
  case (Some y)
  with assms show ?thesis by (cases y) (simp add: and_then_def)
qed

lemma and_then_Some:
  "and_then (Some (fl, s1)) k = (if fl = Proceed then k s1 else Some (fl, s1))"
  by (simp add: and_then_def)

lemma after_step_5_not_break:
  "pred_option (\<lambda>y. fst y \<noteq> Break)
     (and_then (step_6_loop E s) (\<lambda>s.
      and_then (Some (steps_6_11 E s)) (\<lambda>s.
      and_then (Some (step_12 E s)) (\<lambda>s.
      and_then (Some (steps_13_15 E s)) (\<lambda>s.
      and_then (step_16_loop E s) (\<lambda>s.
      Some (steps_17_18 E s)))))))"
proof -
  have a: "pred_option (\<lambda>y. fst y \<noteq> Break) (step_6_loop E sa)" for sa
    using step_6_loop_not_break by (cases "step_6_loop E sa") auto
  have b: "pred_option (\<lambda>y. fst y \<noteq> Break) (step_16_loop E sa)" for sa
    using step_16_loop_not_break by (cases "step_16_loop E sa") auto
  show ?thesis
    by (intro and_then_not_break a b)
      (simp_all add: steps_6_11_not_break step_12_not_break steps_13_15_not_break steps_17_18_not_break)
qed

lemma step_5_break:
  "step_5 E s = (Break, s') \<longleftrightarrow>
     manual_choose (cfg E) \<and>
     (\<exists>s2. manual_choose_friend E s = (Inr False, s2) \<and>
           s' = emit (LogError ''Manual choose failed; stopping automation as requested'') s2)"
  by (auto simp: step_5_def split: prod.splits sum.splits)

lemma cycle_break:
  assumes "cycle E s = Some (Break, s')"
  shows "\<exists>s1. steps_1_4 E s = (Proceed, s1) \<and> step_5 E s1 = (Break, s')"
proof -
  obtain fl s1 where a: "steps_1_4 E s = (fl, s1)" by (cases "steps_1_4 E s")
  have "fl \<noteq> Break" using steps_1_4_not_break [of E s] a by simp
  then have p: "fl = Proceed" using assms a by (auto simp: cycle_def and_then_Some split: if_splits)
  obtain fl2 s2 where b: "step_5 E s1 = (fl2, s2)" by (cases "step_5 E s1")
  have "fl2 = Break \<and> s2 = s'"
  proof (cases "fl2 = Proceed")
    case True
    then have "pred_option (\<lambda>y. fst y \<noteq> Break) (cycle E s)"
      using after_step_5_not_break [of E s2] by (simp add: cycle_def a p b and_then_Some)
    with assms show ?thesis by simp
  next
    case False
    then show ?thesis using assms by (simp add: cycle_def a p b and_then_Some)
  qed
  with a p b show ?thesis by simp
qed

lemma cycle_break_intro:
  assumes "steps_1_4 E s = (Proceed, s1)" and "step_5 E s1 = (Break, s')"
  shows "cycle E s = Some (Break, s')"
  using assms by (simp add: cycle_def and_then_Some)

lemma loop_break:
  assumes "cycle E s = Some (Break, s')"
  shows "run_automation_loop E s = Some (None, s')"
  by (subst run_automation_loop.simps) (simp add: assms)




lemma manual_choose_friend_fails:
  assumes "find_and_tap_multi E ''plus.png'' 10 1 None (4 / 5) s1 = (Inr True, s2)"
      and "find_and_tap_multi E ''following.png'' 5 (1 / 5) None (7 / 10) s2 = (Inr False, s3)"
      and "run_filter_sequence E s3 = (Inr True, s4)"
      and "find_and_tap_multi E ''following.png'' 5 (1 / 5) None (7 / 10) s4 = (Inr False, s5)"
  shows "manual_choose_friend E s1 = (Inr False, s5)"
  using assms by (simp add: manual_choose_friend_def)

lemma manual_failure_exit:
  assumes "startup E = None" and "manual_choose (cfg E)"
      and "steps_1_4 E s = (Proceed, s1)"
      and "manual_choose_friend E s1 = (Inr False, s5)"
  shows "cycle E s = Some (Break, emit (LogError ''Manual choose failed; stopping automation as requested'') s5)"
    and "run_automation_loop E s =
           Some (None, emit (LogError ''Manual choose failed; stopping automation as requested'') s5)"
    and "main E s = Some (Inr 0, emit (LogError ''Manual choose failed; stopping automation as requested'') s5)"
proof -
  have "step_5 E s1 = (Break, emit (LogError ''Manual choose failed; stopping automation as requested'') s5)"
    using assms(2,4) by (simp add: step_5_break)
  then show c: "cycle E s = Some (Break, emit (LogError ''Manual choose failed; stopping automation as requested'') s5)"
    using assms(3) by (rule cycle_break_intro [rotated])
  then show l: "run_automation_loop E s =
           Some (None, emit (LogError ''Manual choose failed; stopping automation as requested'') s5)"
    by (rule loop_break)
  then show "main E s = Some (Inr 0, emit (LogError ''Manual choose failed; stopping automation as requested'') s5)"
    using assms(1) by (simp add: main_def)
qed

text \<open>
  Claim C4, as the code has it. When manual selection is enabled, the cycle reaches step 5,
  \<open>plus.png\<close> is tapped, and \<open>following.png\<close> is not found either before or after the
  filter sequence, the cycle ends with \<open>break\<close>: the automation loop returns, and since it
  returns normally \<open>main\<close> returns the exit status 0; what tells this stop apart is the last
  line of the log. It is the only \<open>break\<close> of a cycle: whenever a cycle ends with
  \<open>break\<close>, manual selection is enabled and \<open>manual_choose_friend\<close> has returned \<open>False\<close>.
\<close>

theorem manual_selection_failure_stops_loop:
  assumes "startup E = None" and "manual_choose (cfg E)"
      and "steps_1_4 E s = (Proceed, s1)"
      and "find_and_tap_multi E ''plus.png'' 10 1 None (4 / 5) s1 = (Inr True, s2)"
      and "find_and_tap_multi E ''following.png'' 5 (1 / 5) None (7 / 10) s2 = (Inr False, s3)"
      and "run_filter_sequence E s3 = (Inr True, s4)"
      and "find_and_tap_multi E ''following.png'' 5 (1 / 5) None (7 / 10) s4 = (Inr False, s5)"
  shows "run_automation_loop E s =
           Some (None, emit (LogError ''Manual choose failed; stopping automation as requested'') s5) \<and>
         main E s =
           Some (Inr 0, emit (LogError ''Manual choose failed; stopping automation as requested'') s5) \<and>
         (\<forall>E' sa s'. cycle E' sa = Some (Break, s') \<longrightarrow>
            manual_choose (cfg E') \<and>
            (\<exists>sb sc. steps_1_4 E' sa = (Proceed, sb) \<and> manual_choose_friend E' sb = (Inr False, sc)))"
proof -
  have m: "manual_choose_friend E s1 = (Inr False, s5)"
    by (rule manual_choose_friend_fails [OF assms(4-7)])
  have "manual_choose (cfg E') \<and>
        (\<exists>sb sc. steps_1_4 E' sa = (Proceed, sb) \<and> manual_choose_friend E' sb = (Inr False, sc))"
    if "cycle E' sa = Some (Break, s')" for E' sa s'
    using cycle_break [OF that] step_5_break by blast
  then show ?thesis
    using manual_failure_exit(2,3) [OF assms(1-3) m] by blast
qed

lemma pair_fst: "fst r = a \<Longrightarrow> r = (a, snd r)"
  by (cases r) simp

lemma screencap_manual: "screencap E_manual k = Exited 0 (Some frame35)"
  by (simp add: E_manual_def)

lemma template_in_manual:
  assumes "name \<in> {''Career.png'', ''next.png'', ''auto_select_1.png'', ''ok.png'', ''plus.png''}"
  shows "template_in E_manual (Some frame35) name (4 / 5) = Some (2, 2)"
  using assms
  by (auto simp: template_in_def find_template_def E_manual_def path_join_def Let_def
      imread_screenshot_def imread_template_def roots_minMaxLoc tmpl24_def)

lemma following_manual:
  "template_in E_manual b ''following.png'' thr = None"
  "directory_in E_manual b ''assets/image'' ''following.png'' thr = None"
  by (simp_all add: template_in_def find_template_def directory_in_def search_directory_def
      E_manual_def path_join_def)

lemma find_and_tap_manual:
  assumes "0 < n"
      and "name \<in> {''Career.png'', ''next.png'', ''auto_select_1.png'', ''ok.png'', ''plus.png''}"
  shows "fst (find_and_tap E_manual name n w s) = Inr True"
  by (simp add: find_and_tap_hit [OF assms(1) screencap_manual template_in_manual [OF assms(2)]])

lemma find_and_tap_multi_hit:
  assumes "0 < n" and "screencap E (ncap s) = Exited 0 b" and "template_in E b name thr = Some c"
  shows "fst (find_and_tap_multi E name n w dirs thr s) = Inr True"
proof -
  let ?p = "clock E (ncap s)"
  let ?s1 = "s\<lparr>ncap := Suc (ncap s), trace := trace s @ [Capture], fs := (fs s)(?p \<mapsto> b)\<rparr>"
  have ts: "take_screenshot E s = (Inr ?p, ?s1)" by (rule take_screenshot_ok [OF assms(2)])
  have "fs ?s1 ?p = Some b" by simp
  then have "find_template E ?s1 name ?p thr = Some c"
    using assms(3) by (simp add: find_template_reads_file)
  then have ft: "find_template_multi E ?s1 name ?p thr dirs = Some c"
    by (simp add: find_template_multi_def)
  have upt: "[0..<n] = 0 # [1..<n]" using assms(1) by (simp add: upt_conv_Cons)
  show ?thesis
    unfolding find_and_tap_multi_def upt by (simp add: ts ft Let_def)
qed

lemma find_and_tap_multi_loop_never:
  assumes "\<And>k. \<exists>b. screencap E k = Exited 0 b \<and> template_in E b name thr = None \<and>
             directory_in E b ''assets/image'' name thr = None"
  shows "fst (find_and_tap_multi_loop E name n w None thr atts s) = Inr False"
proof (induction atts arbitrary: s)
  case Nil
  show ?case by simp
next
  case (Cons k rest)
  obtain b where b: "screencap E (ncap s) = Exited 0 b" "template_in E b name thr = None"
      "directory_in E b ''assets/image'' name thr = None"
    using assms by blast
  let ?p = "clock E (ncap s)"
  let ?s1 = "s\<lparr>ncap := Suc (ncap s), trace := trace s @ [Capture], fs := (fs s)(?p \<mapsto> b)\<rparr>"
  have ts: "take_screenshot E s = (Inr ?p, ?s1)" by (rule take_screenshot_ok [OF b(1)])
  have f: "fs ?s1 ?p = Some b" by simp
  have ft: "find_template_multi E ?s1 name ?p thr None = None"
    by (simp add: find_template_multi_def find_template_reads_file [OF f]
        search_directory_reads_file [OF f] b path_join_def)
  show ?case
    by (simp add: ts ft Let_def Cons.IH)
qed

lemma following_not_found:
  "fst (find_and_tap_multi E_manual ''following.png'' n w None thr s) = Inr False"
  unfolding find_and_tap_multi_def
  by (rule find_and_tap_multi_loop_never) (simp add: screencap_manual following_manual)

lemma steps_1_4_manual: "fst (steps_1_4 E_manual s) = Proceed"
proof -
  have g: "guard (find_and_tap E_manual name n w sa) k = k (snd (find_and_tap E_manual name n w sa))"
    if "0 < n" "name \<in> {''Career.png'', ''next.png'', ''auto_select_1.png'', ''ok.png'', ''plus.png''}"
    for name n w sa k
    using find_and_tap_manual [OF that, of w sa]
    by (cases "find_and_tap E_manual name n w sa") (simp add: guard_def)
  have n: "attempts_next (cfg E_manual) = 10" by (simp add: E_manual_def cfg0_def)
  show ?thesis
    unfolding steps_1_4_def by (simp add: g n)
qed

lemma upper_SSR: "upper ''SSR'' = ''SSR''" "upper ''POWER'' = ''POWER''"
  by (simp_all add: upper_def)

lemma run_filter_sequence_manual: "fst (run_filter_sequence E_manual s) = Inr True"
proof -
  have c: "filter_rarity (cfg E_manual) = ''SSR''" "filter_speciality (cfg E_manual) = ''POWER''"
    by (simp_all add: E_manual_def cfg0_def)
  have ok: "fst (find_and_tap E_manual ''ok.png'' 10 0 sa) = Inr True" for sa
    by (rule find_and_tap_manual) simp_all
  have k: "fst (case r of (Inl e, s5) \<Rightarrow> (Inl e, s5)
                 | (Inr found, s5) \<Rightarrow> if \<not> found then (Inr False, s5) else (Inr True, g s5)) = Inr True"
    if "fst r = Inr True" for r :: "(py_exc + bool) \<times> state" and g
    using that by (cases r) (auto split: sum.splits)
  show ?thesis
    unfolding run_filter_sequence_def Let_def c upper_SSR
    by (simp add: rarity_coords_def speciality_coords_def k ok)
qed

lemma plus_manual: "fst (find_and_tap_multi E_manual ''plus.png'' 10 1 None (4 / 5) s) = Inr True"
  by (rule find_and_tap_multi_hit [OF _ screencap_manual template_in_manual]) simp_all

lemma manual_facts:
  "startup E_manual = None" "manual_choose (cfg E_manual)"
  by (simp_all add: E_manual_def cfg0_def)

theorem manual_selection_failure_stops_loop_witness:
  "main E_manual s_init =
     Some (Inr 0, emit (LogError ''Manual choose failed; stopping automation as requested'') sm5) \<and>
   run_automation_loop E_manual s_init =
     Some (None, emit (LogError ''Manual choose failed; stopping automation as requested'') sm5)"
proof -
  have h1: "steps_1_4 E_manual s_init = (Proceed, sm1)"
    unfolding sm1_def by (rule pair_fst [OF steps_1_4_manual])
  have h2: "find_and_tap_multi E_manual ''plus.png'' 10 1 None (4 / 5) sm1 = (Inr True, sm2)"
    unfolding sm2_def by (rule pair_fst [OF plus_manual])
  have h3: "find_and_tap_multi E_manual ''following.png'' 5 (1 / 5) None (7 / 10) sm2 = (Inr False, sm3)"
    unfolding sm3_def by (rule pair_fst [OF following_not_found])
  have h4: "run_filter_sequence E_manual sm3 = (Inr True, sm4)"
    unfolding sm4_def by (rule pair_fst [OF run_filter_sequence_manual])
  have h5: "find_and_tap_multi E_manual ''following.png'' 5 (1 / 5) None (7 / 10) sm4 = (Inr False, sm5)"
    unfolding sm5_def by (rule pair_fst [OF following_not_found])
  show ?thesis
    using manual_selection_failure_stops_loop [OF manual_facts h1 h2 h3 h4 h5] by simp
qed

text \<open>
  Claim C4, as stated, fails in its last part: on a device where manual selection is
  enabled and \<open>following.png\<close> is found neither before nor after the filter sequence, the
  loop ends, and \<open>main\<close> returns the exit status 0, not a non-zero one.
\<close>

theorem manual_failure_exit_status_counterexample:
  "manual_choose (cfg E_manual) \<and>
   fst (steps_1_4 E_manual s_init) = Proceed \<and>
   fst (find_and_tap_multi E_manual ''plus.png'' 10 1 None (4 / 5) sm1) = Inr True \<and>
   fst (find_and_tap_multi E_manual ''following.png'' 5 (1 / 5) None (7 / 10) sm2) = Inr False \<and>
   fst (run_filter_sequence E_manual sm3) = Inr True \<and>
   fst (find_and_tap_multi E_manual ''following.png'' 5 (1 / 5) None (7 / 10) sm4) = Inr False \<and>
   map_option fst (main E_manual s_init) = Some (Inr 0)"
proof -
  have h1: "steps_1_4 E_manual s_init = (Proceed, sm1)"
    unfolding sm1_def by (rule pair_fst [OF steps_1_4_manual])
  have h2: "find_and_tap_multi E_manual ''plus.png'' 10 1 None (4 / 5) sm1 = (Inr True, sm2)"
    unfolding sm2_def by (rule pair_fst [OF plus_manual])
  have h3: "find_and_tap_multi E_manual ''following.png'' 5 (1 / 5) None (7 / 10) sm2 = (Inr False, sm3)"
    unfolding sm3_def by (rule pair_fst [OF following_not_found])
  have h4: "run_filter_sequence E_manual sm3 = (Inr True, sm4)"
    unfolding sm4_def by (rule pair_fst [OF run_filter_sequence_manual])
  have h5: "find_and_tap_multi E_manual ''following.png'' 5 (1 / 5) None (7 / 10) sm4 = (Inr False, sm5)"
    unfolding sm5_def by (rule pair_fst [OF following_not_found])
  have m: "manual_choose_friend E_manual sm1 = (Inr False, sm5)"
    by (rule manual_choose_friend_fails [OF h2 h3 h4 h5])
  have "map_option fst (main E_manual s_init) = Some (Inr 0)"
    by (simp add: manual_failure_exit(3) [OF manual_facts h1 m])
  then show ?thesis
    by (simp add: manual_facts steps_1_4_manual plus_manual following_not_found run_filter_sequence_manual)
qed




end
